theory Spec2Isabelle
  imports Main
begin

section \<open>Python strings\<close>

text \<open>
  A Python \<^verbatim>\<open>str\<close> is a sequence of Unicode code points. The bot's keywords and
  replies are Russian, so a string is a list of code points (\<open>nat\<close>); ASCII
  literals are written through \<open>ascii\<close>, the others as their code points with the
  transliterated text beside them.
\<close>

type_synonym str = "nat list"

definition ascii :: "string \<Rightarrow> str" where
  "ascii s = map of_char s"

text \<open>\<^verbatim>\<open>s.startswith(p)\<close>\<close>

definition startswith :: "str \<Rightarrow> str \<Rightarrow> bool" where
  "startswith s p \<longleftrightarrow> take (length p) s = p"

text \<open>\<^verbatim>\<open>w in text\<close> for two strings: \<open>w\<close> occurs in \<open>text\<close> as a contiguous run.\<close>

fun str_in :: "str \<Rightarrow> str \<Rightarrow> bool" where
  "str_in w [] \<longleftrightarrow> w = []"
| "str_in w (c # cs) \<longleftrightarrow> startswith (c # cs) w \<or> str_in w cs"

text \<open>\<^verbatim>\<open>any(w in text for w in ws)\<close>\<close>

definition any_in :: "str list \<Rightarrow> str \<Rightarrow> bool" where
  "any_in ws t = list_ex (\<lambda>w. str_in w t) ws"

text \<open>\<^verbatim>\<open>s.replace(old, new, 1)\<close>: the first occurrence of \<open>old\<close>, if any, is replaced.\<close>

fun replace_first :: "str \<Rightarrow> str \<Rightarrow> str \<Rightarrow> str" where
  "replace_first old new [] = (if old = [] then new else [])"
| "replace_first old new (c # cs) =
     (if startswith (c # cs) old then new @ drop (length old) (c # cs)
      else c # replace_first old new cs)"

text \<open>\<^verbatim>\<open>str(n)\<close> for an integer (what an f-string writes for it), and for a bool.\<close>

fun str_nat :: "nat \<Rightarrow> str" where
  "str_nat n = (if n < 10 then [48 + n] else str_nat (n div 10) @ [48 + n mod 10])"

declare str_nat.simps [simp del]

definition str_int :: "int \<Rightarrow> str" where
  "str_int i = (if i < 0 then 45 # str_nat (nat (- i)) else str_nat (nat i))"

definition str_bool :: "bool \<Rightarrow> str" where
  "str_bool b = (if b then ascii ''True'' else ascii ''False'')"

text \<open>Reading a run of ASCII digits back as a number, to tell two numerals apart.\<close>

definition digits_value :: "str \<Rightarrow> nat" where
  "digits_value ds = foldl (\<lambda>a c. 10 * a + (c - 48)) 0 ds"

text \<open>
  Two things the code takes from the Python runtime's Unicode tables, which are not
  part of the repository: \<^verbatim>\<open>str.lower\<close>, and which code points are decimal digits
  (what \<^verbatim>\<open>\d\<close> matches and \<^verbatim>\<open>int\<close> converts) with their values. They are parameters.
\<close>

record unicode_tables =
  str_lower :: "str \<Rightarrow> str"
  decimal_digit :: "nat \<Rightarrow> nat option"

text \<open>
  The tables on Basic Latin and the Cyrillic block U+0400 to U+045F, the alphabets of
  the bot's keywords: enough to evaluate the functions on concrete Russian or ASCII
  input. Other code points are left as they are and are no digits here.
\<close>

definition lower_cp :: "nat \<Rightarrow> nat" where
  "lower_cp c =
     (if 65 \<le> c \<and> c \<le> 90 then c + 32
      else if 1040 \<le> c \<and> c \<le> 1071 then c + 32
      else if 1024 \<le> c \<and> c \<le> 1039 then c + 80
      else c)"

definition basic_tables :: unicode_tables where
  "basic_tables =
     \<lparr>str_lower = map lower_cp,
      decimal_digit = (\<lambda>c. if 48 \<le> c \<and> c \<le> 57 then Some (c - 48) else None)\<rparr>"

text \<open>
  \<^verbatim>\<open>re.search(r'(\d{1,2})', text)\<close> followed by \<^verbatim>\<open>int(time_match.group(1))\<close>: the
  leftmost digit together with the character after it when that is a digit too,
  read as a decimal number; \<open>None\<close> when the text has no digit.
\<close>

fun search_digits :: "(nat \<Rightarrow> nat option) \<Rightarrow> str \<Rightarrow> int option" where
  "search_digits dv [] = None"
| "search_digits dv (c # cs) =
     (case dv c of
        None \<Rightarrow> search_digits dv cs
      | Some d \<Rightarrow>
          (case cs of
             [] \<Rightarrow> Some (int d)
           | c2 # _ \<Rightarrow>
               (case dv c2 of
                  None \<Rightarrow> Some (int d)
                | Some d2 \<Rightarrow> Some (10 * int d + int d2))))"

section \<open>Time inference\<close>

text \<open>\<^verbatim>\<open>get_time_category\<close> (src/main.py, lines 70 to 76).\<close>

definition get_time_category :: "int \<Rightarrow> str" where
  "get_time_category hour =
     (if 5 \<le> hour \<and> hour < 10 then ascii ''breakfast''
      else if 10 \<le> hour \<and> hour < 18 then ascii ''lunch''
      else ascii ''dinner'')"

text \<open>
  The three word lists of \<^verbatim>\<open>parse_hour_from_text\<close> (lines 82, 84 and 86), in the
  order of the source. Transliterated: utro, zavtrak, utrom, s utra, rano;
  obed, dnyom, dnem; uzhin, vecher, noch', sejchas, pozdno.
\<close>

definition morning_words :: "str list" where
  "morning_words =
     [[1091, 1090, 1088, 1086],
      [1079, 1072, 1074, 1090, 1088, 1072, 1082],
      [1091, 1090, 1088, 1086, 1084],
      [1089, 32, 1091, 1090, 1088, 1072],
      [1088, 1072, 1085, 1086],
      ascii ''8'', ascii ''9'']"

definition midday_words :: "str list" where
  "midday_words =
     [[1086, 1073, 1077, 1076],
      [1076, 1085, 1105, 1084],
      [1076, 1085, 1077, 1084],
      ascii ''10'', ascii ''11'', ascii ''12'', ascii ''13'', ascii ''14'', ascii ''15'',
      ascii ''16'', ascii ''17'']"

definition evening_words :: "str list" where
  "evening_words =
     [[1091, 1078, 1080, 1085],
      [1074, 1077, 1095, 1077, 1088],
      [1085, 1086, 1095, 1100],
      [1089, 1077, 1081, 1095, 1072, 1089],
      [1087, 1086, 1079, 1076, 1085, 1086],
      ascii ''18'', ascii ''19'', ascii ''20'', ascii ''21'', ascii ''22'', ascii ''23'',
      ascii ''0'', ascii ''1'', ascii ''2'', ascii ''3'', ascii ''4'', ascii ''5'',
      ascii ''6'', ascii ''7'']"

text \<open>
  \<^verbatim>\<open>parse_hour_from_text\<close> (lines 78 to 94). \<open>now\<close> is the hour that
  \<^verbatim>\<open>datetime.now().hour\<close> reads.
\<close>

definition parse_hour_from_text :: "unicode_tables \<Rightarrow> int \<Rightarrow> str \<Rightarrow> int" where
  "parse_hour_from_text U now text0 =
     (let text = str_lower U text0 in
      if any_in morning_words text then 8
      else if any_in midday_words text then 13
      else if any_in evening_words text then 19
      else (case search_digits (decimal_digit U) text of
              Some h \<Rightarrow> if 0 \<le> h \<and> h \<le> 23 then h else now
            | None \<Rightarrow> now))"

section \<open>Dish selector\<close>

text \<open>
  An entry of \<^verbatim>\<open>DISHES\<close>. The module \<^verbatim>\<open>dishes\<close> is not among the sources, so the
  catalog is a parameter of everything that reads it. The code reads five keys of an
  entry; Python compares two entries (\<^verbatim>\<open>d not in filtered\<close>) by all their keys.
\<close>

record dish =
  name :: str
  recipe :: str
  time :: str
  healthy :: bool
  diet :: str

text \<open>\<^verbatim>\<open>filter_dishes\<close> (lines 96 to 107).\<close>

definition filter_dishes :: "dish list \<Rightarrow> int \<Rightarrow> bool \<Rightarrow> str \<Rightarrow> dish list" where
  "filter_dishes DISHES hour healthy' diet' =
     (let time_cat = get_time_category hour;
          filtered = [d \<leftarrow> DISHES. time d = time_cat \<and> healthy d = healthy'
                        \<and> (diet' = ascii ''any'' \<or> diet d = diet')];
          filtered = (if length filtered < 3
                      then filtered @ [d \<leftarrow> DISHES. time d = time_cat \<and> d \<notin> set filtered]
                      else filtered)
      in take 3 filtered)"

section \<open>Replies\<close>

text \<open>The four inline keyboards (lines 34 to 67), by the function that builds them.\<close>

datatype keyboard = build_health_kb | build_diet_kb | build_payment_kb | build_time_suggestion_kb

text \<open>
  What a handler sends: \<^verbatim>\<open>message.answer(text, reply_markup)\<close>,
  \<^verbatim>\<open>callback.message.edit_text(text, reply_markup)\<close> and
  \<^verbatim>\<open>callback.answer(text, show_alert)\<close>.
\<close>

datatype effect =
  Answer str "keyboard option"
| EditText str "keyboard option"
| CallbackAnswer "str option" bool

text \<open>A dictionary lookup with a key that is not there raises.\<close>

datatype error = KeyError

text \<open>cmd_start, lines 115 to 120: Privet! Ya pomogu reshit', chto prigotovit' ... Pervyj raz - besplatno. Potom - 299 RUB navsegda. (Hello! I will help you decide what to cook ... The first time is free. After that, 299 RUB forever.)\<close>

definition MSG_START :: str where
  "MSG_START =
     [128104, 8205, 127859, 32, 1055, 1088, 1080, 1074, 1077, 1090, 33, 32, 1071, 32,
      1087, 1086, 1084, 1086, 1075, 1091, 32, 1088, 1077, 1096, 1080, 1090, 1100, 44,
      32, 1095, 1090, 1086, 32, 1087, 1088, 1080, 1075, 1086, 1090, 1086, 1074, 1080,
      1090, 1100, 32, 8212, 32, 1089, 32, 1088, 1077, 1094, 1077, 1087, 1090, 1072,
      1084, 1080, 32, 1080, 32, 1091, 1095, 1105, 1090, 1086, 1084, 32, 1074, 1072,
      1096, 1080, 1093, 32, 1087, 1088, 1077, 1076, 1087, 1086, 1095, 1090, 1077, 1085,
      1080, 1081, 46, 10, 10, 1055, 1088, 1086, 1089, 1090, 1086, 32, 1085, 1072, 1087,
      1080, 1096, 1080, 1090, 1077, 58, 10, 8226, 32, 171, 1095, 1090, 1086, 32, 1087,
      1088, 1080, 1075, 1086, 1090, 1086, 1074, 1080, 1090, 1100, 32, 1085, 1072, 32,
      1091, 1078, 1080, 1085, 63, 187, 10, 8226, 32, 171, 1088, 1077, 1094, 1077, 1087,
      1090, 32, 1085, 1072, 32, 1079, 1072, 1074, 1090, 1088, 1072, 1082, 187, 10, 8226,
      32, 171, 1095, 1090, 1086, 32, 1089, 1076, 1077, 1083, 1072, 1090, 1100, 32, 1074,
      32, 49, 57, 58, 48, 48, 63, 187, 10, 10, 1055, 1077, 1088, 1074, 1099, 1081, 32,
      1088, 1072, 1079, 32, 8212, 32, 1073, 1077, 1089, 1087, 1083, 1072, 1090, 1085,
      1086, 46, 32, 1055, 1086, 1090, 1086, 1084, 32, 8212, 32, 50, 57, 57, 32, 8381,
      32, 1085, 1072, 1074, 1089, 1077, 1075, 1076, 1072, 46]"

text \<open>
  line 141: Podozhdite 1 minutu mezhdu zaprosami. (Wait 1 minute between requests.)
\<close>

definition MSG_WAIT :: str where
  "MSG_WAIT =
     [9203, 32, 1055, 1086, 1076, 1086, 1078, 1076, 1080, 1090, 1077, 32, 49, 32, 1084,
      1080, 1085, 1091, 1090, 1091, 32, 1084, 1077, 1078, 1076, 1091, 32, 1079, 1072,
      1087, 1088, 1086, 1089, 1072, 1084, 1080, 46]"

text \<open>
  line 146: Razblokirujte polnyj dostup za 299 RUB - navsegda! (Unlock full access for
  299 RUB, forever!)
\<close>

definition MSG_UPSELL :: str where
  "MSG_UPSELL =
     [128275, 32, 1056, 1072, 1079, 1073, 1083, 1086, 1082, 1080, 1088, 1091, 1081,
      1090, 1077, 32, 1087, 1086, 1083, 1085, 1099, 1081, 32, 1076, 1086, 1089, 1090,
      1091, 1087, 32, 1079, 1072, 32, 50, 57, 57, 32, 8381, 32, 8212, 32, 1085, 1072,
      1074, 1089, 1077, 1075, 1076, 1072, 33]"

text \<open>line 155: Vy na pravil'nom pitanii? (Are you on a healthy diet?)\<close>

definition MSG_ASK_HEALTH :: str where
  "MSG_ASK_HEALTH =
     [1042, 1099, 32, 1085, 1072, 32, 1087, 1088, 1072, 1074, 1080, 1083, 1100, 1085,
      1086, 1084, 32, 1087, 1080, 1090, 1072, 1085, 1080, 1080, 63]"

text \<open>
  line 175: Vot idei s retseptami: (Here are ideas with recipes:) and two newlines
\<close>

definition REPLY_HEADER :: str where
  "REPLY_HEADER =
     [1042, 1086, 1090, 32, 1080, 1076, 1077, 1080, 32, 1089, 32, 1088, 1077, 1094,
      1077, 1087, 1090, 1072, 1084, 1080, 58, 10, 10]"

text \<open>line 177: U+1F525 and a space\<close>

definition DISH_BULLET :: str where
  "DISH_BULLET =
     [128293, 32]"

text \<open>
  line 180: Bol'she retseptov - za 299 RUB navsegda! (More recipes for 299 RUB,
  forever!)
\<close>

definition UPSELL_SUFFIX :: str where
  "UPSELL_SUFFIX =
     [10024, 32, 1041, 1086, 1083, 1100, 1096, 1077, 32, 1088, 1077, 1094, 1077, 1087,
      1090, 1086, 1074, 32, 8212, 32, 1079, 1072, 32, 50, 57, 57, 32, 8381, 32, 1085,
      1072, 1074, 1089, 1077, 1075, 1076, 1072, 33]"

text \<open>lines 166, 167 and 182: KESH: (CACHE:)\<close>

definition CACHE_MARK :: str where
  "CACHE_MARK =
     [1050, 1069, 1064, 58]"

text \<open>line 197: A chto predpochitaete? (And what do you prefer?)\<close>

definition MSG_ASK_DIET :: str where
  "MSG_ASK_DIET =
     [1040, 32, 1095, 1090, 1086, 32, 1087, 1088, 1077, 1076, 1087, 1086, 1095, 1080,
      1090, 1072, 1077, 1090, 1077, 63]"

text \<open>line 217: Uzhe oplacheno! (Already paid!)\<close>

definition MSG_ALREADY_PAID :: str where
  "MSG_ALREADY_PAID =
     [1059, 1078, 1077, 32, 1086, 1087, 1083, 1072, 1095, 1077, 1085, 1086, 33]"

text \<open>
  lines 225 and 226: Dostup navsegda aktivirovan! Teper' vy mozhete pisat' mne skol'ko
  ugodno. Poprobujte: (Access activated forever! ...)
\<close>

definition MSG_ACTIVATED :: str where
  "MSG_ACTIVATED =
     [9989, 32, 1044, 1086, 1089, 1090, 1091, 1087, 32, 1085, 1072, 1074, 1089, 1077,
      1075, 1076, 1072, 32, 1072, 1082, 1090, 1080, 1074, 1080, 1088, 1086, 1074, 1072,
      1085, 33, 10, 10, 1058, 1077, 1087, 1077, 1088, 1100, 32, 1074, 1099, 32, 1084,
      1086, 1078, 1077, 1090, 1077, 32, 1087, 1080, 1089, 1072, 1090, 1100, 32, 1084,
      1085, 1077, 32, 1089, 1082, 1086, 1083, 1100, 1082, 1086, 32, 1091, 1075, 1086,
      1076, 1085, 1086, 46, 32, 1055, 1086, 1087, 1088, 1086, 1073, 1091, 1081, 1090,
      1077, 58]"

text \<open>line 229: Spasibo za doverie! (Thank you for your trust!)\<close>

definition MSG_THANKS :: str where
  "MSG_THANKS =
     [1057, 1087, 1072, 1089, 1080, 1073, 1086, 32, 1079, 1072, 32, 1076, 1086, 1074,
      1077, 1088, 1080, 1077, 33, 32, 128591]"

section \<open>In-memory storage\<close>

text \<open>
  The two states of \<^verbatim>\<open>UserPreferences\<close> (lines 29 to 31) and one user's FSM context in
  aiogram's memory storage: the current state (\<open>None\<close> when unset) and the data
  dictionary, whose only keys are the three the code writes. A context nobody wrote
  has no state and no data. The context is keyed by the user id, as in a private chat.
\<close>

datatype UserPreferences = asking_health | asking_diet

record fsm_context =
  fsm_state :: "UserPreferences option"
  data_healthy :: "bool option"
  data_diet :: "str option"
  data_pending_hour :: "int option"

definition fsm_clear :: fsm_context where
  "fsm_clear = \<lparr>fsm_state = None, data_healthy = None, data_diet = None, data_pending_hour = None\<rparr>"

text \<open>
  The module's global dictionaries (lines 23 to 26) and the FSM storage. User ids are
  integers. A \<^verbatim>\<open>datetime\<close> is its number of microseconds on the time line (Python
  datetimes have microsecond resolution), a \<^verbatim>\<open>timedelta\<close> a number of microseconds.
\<close>

record bot_state =
  paid_users :: "int set"
  free_attempts :: "int \<rightharpoonup> int"
  last_request_time :: "int \<rightharpoonup> int"
  last_response_cache :: "int \<rightharpoonup> str \<times> int"
  fsm :: "int \<Rightarrow> fsm_context"

definition init_state :: bot_state where
  "init_state =
     \<lparr>paid_users = {}, free_attempts = Map.empty, last_request_time = Map.empty,
      last_response_cache = Map.empty, fsm = (\<lambda>_. fsm_clear)\<rparr>"

definition timedelta_minutes :: "int \<Rightarrow> int" where
  "timedelta_minutes n = n * 60000000"

text \<open>\<^verbatim>\<open>d.get(k, dflt)\<close>\<close>

definition dict_get :: "('k \<rightharpoonup> 'v) \<Rightarrow> 'k \<Rightarrow> 'v \<Rightarrow> 'v" where
  "dict_get d k dflt = (case d k of Some v \<Rightarrow> v | None \<Rightarrow> dflt)"

section \<open>Request handling\<close>

text \<open>
  \<^verbatim>\<open>is_rate_limited\<close> (lines 131 to 137); \<open>now\<close> is what its \<^verbatim>\<open>datetime.now()\<close>
  reads. The wall clock is not monotonic, so \<open>now\<close> is any integer.
\<close>

definition is_rate_limited :: "int \<Rightarrow> int \<Rightarrow> bot_state \<Rightarrow> bool \<times> bot_state" where
  "is_rate_limited now user_id s =
     (case last_request_time s user_id of
        Some t \<Rightarrow>
          if now - t < timedelta_minutes 1 then (True, s)
          else (False, s\<lparr>last_request_time := (last_request_time s)(user_id \<mapsto> now)\<rparr>)
      | None \<Rightarrow> (False, s\<lparr>last_request_time := (last_request_time s)(user_id \<mapsto> now)\<rparr>))"

text \<open>The f-string of line 161, \<^verbatim>\<open>f"{hour}_{healthy}_{diet}"\<close>.\<close>

definition cache_key :: "int \<Rightarrow> bool \<Rightarrow> str \<Rightarrow> str" where
  "cache_key hour healthy' diet' = str_int hour @ ascii ''_'' @ str_bool healthy' @ ascii ''_'' @ diet'"

text \<open>The loop of lines 175 to 177.\<close>

definition render_reply :: "dish list \<Rightarrow> str" where
  "render_reply dishes =
     REPLY_HEADER @ concat (map (\<lambda>d. DISH_BULLET @ name d @ [10] @ recipe d @ [10, 10]) dishes)"

text \<open>
  \<^verbatim>\<open>handle_cooking_internal\<close> (lines 139 to 184). \<open>now1\<close> is the clock reading of
  \<^verbatim>\<open>is_rate_limited\<close>, \<open>now2\<close> the one of line 162. The result is the storage after
  the call and what was sent, in order.
\<close>

definition handle_cooking_internal ::
  "dish list \<Rightarrow> int \<Rightarrow> int \<Rightarrow> int \<Rightarrow> int \<Rightarrow> bot_state \<Rightarrow> bot_state \<times> effect list" where
  "handle_cooking_internal DISHES now1 now2 hour user_id s0 =
     (case is_rate_limited now1 user_id s0 of
        (True, s) \<Rightarrow> (s, [Answer MSG_WAIT None])
      | (False, s) \<Rightarrow>
          if user_id \<notin> paid_users s \<and> dict_get (free_attempts s) user_id 0 \<ge> 1
          then (s, [Answer MSG_UPSELL (Some build_payment_kb)])
          else
            let s = (if user_id \<notin> paid_users s
                     then s\<lparr>free_attempts :=
                            (free_attempts s)(user_id \<mapsto> dict_get (free_attempts s) user_id 0 + 1)\<rparr>
                     else s);
                data = fsm s user_id
            in
              (case (data_healthy data, data_diet data) of
                 (Some healthy', Some diet') \<Rightarrow>
                   let key = cache_key hour healthy' diet';
                       cached =
                         (if user_id \<in> paid_users s
                          then (case last_response_cache s user_id of
                                  Some (cached_resp, cached_time) \<Rightarrow>
                                    if now2 - cached_time < timedelta_minutes 5
                                       \<and> startswith cached_resp (CACHE_MARK @ key)
                                    then Some (replace_first (CACHE_MARK @ key @ ascii ''||'') []
                                                 cached_resp)
                                    else None
                                | None \<Rightarrow> None)
                          else None)
                   in
                     (case cached of
                        Some reply \<Rightarrow> (s, [Answer reply None])
                      | None \<Rightarrow>
                          let dishes = filter_dishes DISHES hour healthy' diet';
                              dishes = (if dishes = []
                                        then take 3 (filter_dishes DISHES hour True (ascii ''any''))
                                        else dishes);
                              reply = render_reply dishes
                          in
                            if user_id \<notin> paid_users s
                            then (s, [Answer (reply @ UPSELL_SUFFIX) None])
                            else (s\<lparr>last_response_cache := (last_response_cache s)
                                       (user_id \<mapsto> (CACHE_MARK @ key @ ascii ''||'' @ reply, now2))\<rparr>,
                                  [Answer reply None]))
               | _ \<Rightarrow>
                   (s\<lparr>fsm := (fsm s)(user_id :=
                         data\<lparr>fsm_state := Some asking_health, data_pending_hour := Some hour\<rparr>)\<rparr>,
                    [Answer MSG_ASK_HEALTH (Some build_health_kb)])))"

text \<open>
  The reply text that lines 171 to 177 of \<^verbatim>\<open>handle_cooking_internal\<close> build, by itself:
  the selection, the retry with healthy and any diet when it is empty, the rendering.
\<close>

definition new_reply :: "dish list \<Rightarrow> int \<Rightarrow> bool \<Rightarrow> str \<Rightarrow> str" where
  "new_reply DISHES hour healthy' diet' =
     (let dishes = filter_dishes DISHES hour healthy' diet';
          dishes = (if dishes = []
                    then take 3 (filter_dishes DISHES hour True (ascii ''any''))
                    else dishes)
      in render_reply dishes)"

text \<open>\<^verbatim>\<open>cmd_start\<close> (lines 112 to 122).\<close>

definition cmd_start :: "bot_state \<Rightarrow> bot_state \<times> effect list" where
  "cmd_start s = (s, [Answer MSG_START (Some build_time_suggestion_kb)])"

text \<open>
  \<^verbatim>\<open>handle_time_suggestion\<close> (lines 124 to 129). \<^verbatim>\<open>time_map[callback.data]\<close> raises
  on any other data, before anything is written or sent.
\<close>

definition time_map :: "str \<rightharpoonup> int" where
  "time_map =
     [ascii ''suggest_breakfast'' \<mapsto> 8, ascii ''suggest_lunch'' \<mapsto> 13, ascii ''suggest_dinner'' \<mapsto> 19]"

definition handle_time_suggestion ::
  "dish list \<Rightarrow> int \<Rightarrow> int \<Rightarrow> str \<Rightarrow> int \<Rightarrow> bot_state \<Rightarrow> error + bot_state \<times> effect list" where
  "handle_time_suggestion DISHES now1 now2 callback_data user_id s =
     (case time_map callback_data of
        None \<Rightarrow> Inl KeyError
      | Some hour \<Rightarrow>
          (case handle_cooking_internal DISHES now1 now2 hour user_id s of
             (s', out) \<Rightarrow> Inr (s', out @ [CallbackAnswer None False])))"

text \<open>
  \<^verbatim>\<open>handle_cooking_query\<close> (lines 186 to 190); \<open>now_hour\<close> is the hour that
  \<^verbatim>\<open>parse_hour_from_text\<close> reads off the clock.
\<close>

definition handle_cooking_query ::
  "unicode_tables \<Rightarrow> dish list \<Rightarrow> int \<Rightarrow> int \<Rightarrow> int \<Rightarrow> str \<Rightarrow> int \<Rightarrow> bot_state
     \<Rightarrow> bot_state \<times> effect list" where
  "handle_cooking_query U DISHES now_hour now1 now2 msg_text user_id s =
     handle_cooking_internal DISHES now1 now2 (parse_hour_from_text U now_hour msg_text) user_id s"

text \<open>\<^verbatim>\<open>process_health\<close> (lines 193 to 199), without its filters.\<close>

definition process_health :: "str \<Rightarrow> int \<Rightarrow> bot_state \<Rightarrow> bot_state \<times> effect list" where
  "process_health callback_data user_id s =
     (let healthy' = (callback_data = ascii ''healthy_yes'') in
      (s\<lparr>fsm := (fsm s)(user_id :=
            (fsm s user_id)\<lparr>data_healthy := Some healthy', fsm_state := Some asking_diet\<rparr>)\<rparr>,
       [EditText MSG_ASK_DIET (Some build_diet_kb), CallbackAnswer None False]))"

text \<open>
  \<^verbatim>\<open>process_diet\<close> (lines 201 to 210), without its filters. \<open>now_hour\<close> is the
  default of \<^verbatim>\<open>data.get("pending_hour", datetime.now().hour)\<close>.
\<close>

definition diet_map :: "str \<rightharpoonup> str" where
  "diet_map =
     [ascii ''diet_meat'' \<mapsto> ascii ''meat'', ascii ''diet_fish'' \<mapsto> ascii ''fish'',
      ascii ''diet_veg'' \<mapsto> ascii ''veg'']"

definition process_diet ::
  "dish list \<Rightarrow> int \<Rightarrow> int \<Rightarrow> int \<Rightarrow> str \<Rightarrow> int \<Rightarrow> bot_state \<Rightarrow> error + bot_state \<times> effect list" where
  "process_diet DISHES now_hour now1 now2 callback_data user_id s =
     (case diet_map callback_data of
        None \<Rightarrow> Inl KeyError
      | Some diet' \<Rightarrow>
          let s = s\<lparr>fsm := (fsm s)(user_id := (fsm s user_id)\<lparr>data_diet := Some diet'\<rparr>)\<rparr>;
              hour = (case data_pending_hour (fsm s user_id) of Some h \<Rightarrow> h | None \<Rightarrow> now_hour)
          in
            (case handle_cooking_internal DISHES now1 now2 hour user_id s of
               (s', out) \<Rightarrow>
                 Inr (s'\<lparr>fsm := (fsm s')(user_id := fsm_clear)\<rparr>, out @ [CallbackAnswer None False])))"

text \<open>\<^verbatim>\<open>buy_access\<close> (lines 213 to 229).\<close>

definition buy_access :: "int \<Rightarrow> bot_state \<Rightarrow> bot_state \<times> effect list" where
  "buy_access user_id s =
     (if user_id \<in> paid_users s then (s, [CallbackAnswer (Some MSG_ALREADY_PAID) True])
      else
        (s\<lparr>paid_users := insert user_id (paid_users s),
           free_attempts := (free_attempts s)(user_id := None),
           last_response_cache := (last_response_cache s)(user_id := None)\<rparr>,
         [EditText MSG_ACTIVATED (Some build_time_suggestion_kb),
          CallbackAnswer (Some MSG_THANKS) True]))"

section \<open>The router\<close>

text \<open>
  The inbound updates. A text message that the filter \<^verbatim>\<open>Command("start")\<close> accepts is
  a \<open>StartCommand\<close>, any other text message a \<open>TextMessage\<close>; a pressed inline
  button is a \<open>CallbackQuery\<close> with the button's callback data. Each carries the id
  of its sender.
\<close>

datatype event =
  StartCommand int
| TextMessage int str
| CallbackQuery int str

text \<open>The clock readings one update may consume.\<close>

record clock =
  now_hour :: int
  now_rate :: int
  now_cache :: int

text \<open>
  The router tries the handlers of an update type in the order of registration and
  runs the first whose filters all hold (the decorators of lines 112, 124, 186, 193,
  201 and 213); an update no handler accepts is dropped: nothing is written, nothing
  is sent.
\<close>

definition dispatch ::
  "unicode_tables \<Rightarrow> dish list \<Rightarrow> clock \<Rightarrow> event \<Rightarrow> bot_state \<Rightarrow> error + bot_state \<times> effect list" where
  "dispatch U DISHES clk ev s =
     (case ev of
        StartCommand user_id \<Rightarrow> Inr (cmd_start s)
      | TextMessage user_id msg_text \<Rightarrow>
          Inr (handle_cooking_query U DISHES (now_hour clk) (now_rate clk) (now_cache clk)
                 msg_text user_id s)
      | CallbackQuery user_id callback_data \<Rightarrow>
          if startswith callback_data (ascii ''suggest_'')
          then handle_time_suggestion DISHES (now_rate clk) (now_cache clk) callback_data user_id s
          else if fsm_state (fsm s user_id) = Some asking_health
                  \<and> startswith callback_data (ascii ''healthy_'')
          then Inr (process_health callback_data user_id s)
          else if fsm_state (fsm s user_id) = Some asking_diet
                  \<and> startswith callback_data (ascii ''diet_'')
          then process_diet DISHES (now_hour clk) (now_rate clk) (now_cache clk)
                 callback_data user_id s
          else if callback_data = ascii ''buy_access''
          then Inr (buy_access user_id s)
          else Inr (s, []))"

text \<open>
  The storage after an update: a handler that raises has written nothing by then, so
  the storage is as before.
\<close>

definition after :: "unicode_tables \<Rightarrow> dish list \<Rightarrow> clock \<Rightarrow> event \<Rightarrow> bot_state \<Rightarrow> bot_state" where
  "after U DISHES clk ev s = (case dispatch U DISHES clk ev s of Inr (s', _) \<Rightarrow> s' | Inl _ \<Rightarrow> s)"

text \<open>The storages the bot can be in: from the empty one, by any updates at any clock readings.\<close>

inductive reachable :: "unicode_tables \<Rightarrow> dish list \<Rightarrow> bot_state \<Rightarrow> bool"
  for U :: unicode_tables and DISHES :: "dish list" where
  start: "reachable U DISHES init_state"
| update: "reachable U DISHES s \<Longrightarrow> reachable U DISHES (after U DISHES clk ev s)"

section \<open>A catalog to evaluate on\<close>

text \<open>
  Five entries in the shape the code reads, four of them for breakfast, to run the
  selector and the handlers on concrete input.
\<close>

definition omelette :: dish where
  "omelette = \<lparr>name = ascii ''omelette'', recipe = ascii ''eggs, milk'',
     time = ascii ''breakfast'', healthy = True, diet = ascii ''veg''\<rparr>"

definition bacon :: dish where
  "bacon = \<lparr>name = ascii ''bacon'', recipe = ascii ''fry'',
     time = ascii ''breakfast'', healthy = False, diet = ascii ''meat''\<rparr>"

definition porridge :: dish where
  "porridge = \<lparr>name = ascii ''porridge'', recipe = ascii ''oats, water'',
     time = ascii ''breakfast'', healthy = True, diet = ascii ''veg''\<rparr>"

definition soup :: dish where
  "soup = \<lparr>name = ascii ''soup'', recipe = ascii ''boil'',
     time = ascii ''lunch'', healthy = True, diet = ascii ''meat''\<rparr>"

definition pancakes :: dish where
  "pancakes = \<lparr>name = ascii ''pancakes'', recipe = ascii ''flour, eggs'',
     time = ascii ''breakfast'', healthy = False, diet = ascii ''veg''\<rparr>"

definition example_dishes :: "dish list" where
  "example_dishes = [omelette, bacon, porridge, soup, pancakes]"

text \<open>
  A storage in which user 1 has paid, has answered both preference questions (not
  healthy, meat) for a request at hour 8, and has a cached reply for exactly that key,
  produced at time 0.
\<close>

definition cached_state :: bot_state where
  "cached_state =
     init_state
       \<lparr>paid_users := {1},
        last_response_cache :=
          [1 \<mapsto> (CACHE_MARK @ cache_key 8 False (ascii ''meat'') @ ascii ''||'' @ ascii ''bacon'', 0)],
        fsm := (\<lambda>_. fsm_clear)
          (1 := \<lparr>fsm_state = Some asking_diet, data_healthy = Some False,
                  data_diet = Some (ascii ''meat''), data_pending_hour = Some 8\<rparr>)\<rparr>"

section \<open>Properties of time inference\<close>

lemma ascii_slots_distinct:
  "ascii ''breakfast'' \<noteq> ascii ''lunch''"
  "ascii ''breakfast'' \<noteq> ascii ''dinner''"
  "ascii ''lunch'' \<noteq> ascii ''dinner''"
  by (simp_all add: ascii_def)

text \<open>
  C4. For every hour (in particular every hour from 0 to 23) \<open>get_time_category\<close>
  returns one of breakfast, lunch and dinner: breakfast exactly on 5 to 9, lunch
  exactly on 10 to 17, dinner exactly on every other hour. The three ranges have no
  gap and no overlap.
\<close>

theorem get_time_category_partition:
  "get_time_category hour \<in> {ascii ''breakfast'', ascii ''lunch'', ascii ''dinner''}
   \<and> (get_time_category hour = ascii ''breakfast'' \<longleftrightarrow> 5 \<le> hour \<and> hour < 10)
   \<and> (get_time_category hour = ascii ''lunch'' \<longleftrightarrow> 10 \<le> hour \<and> hour < 18)
   \<and> (get_time_category hour = ascii ''dinner'' \<longleftrightarrow> hour < 5 \<or> 18 \<le> hour)"
  using ascii_slots_distinct by (auto simp: get_time_category_def)




section \<open>Properties of the dish selector\<close>

text \<open>
  The fallback of \<open>filter_dishes\<close> takes the slot's entries that are not in the exact
  matches; those are the slot's entries that fail the healthy or the diet test, so
  the result is the first three of a stable partition of the slot's entries.
\<close>

lemma filter_dishes_eq:
  "filter_dishes DISHES hour h dt =
     take 3 ([d \<leftarrow> DISHES. time d = get_time_category hour \<and> healthy d = h
                 \<and> (dt = ascii ''any'' \<or> diet d = dt)]
             @ [d \<leftarrow> DISHES. time d = get_time_category hour
                 \<and> \<not> (healthy d = h \<and> (dt = ascii ''any'' \<or> diet d = dt))])"
proof -
  let ?cat = "get_time_category hour"
  let ?P = "\<lambda>d. healthy d = h \<and> (dt = ascii ''any'' \<or> diet d = dt)"
  let ?exact = "[d \<leftarrow> DISHES. time d = ?cat \<and> ?P d]"
  have rest: "[d \<leftarrow> DISHES. time d = ?cat \<and> d \<notin> set ?exact]
              = [d \<leftarrow> DISHES. time d = ?cat \<and> \<not> ?P d]"
    by (rule filter_cong) auto
  show ?thesis
  proof (cases "length ?exact < 3")
    case True
    then show ?thesis
      unfolding filter_dishes_def Let_def rest by simp
  next
    case False
    then show ?thesis
      unfolding filter_dishes_def Let_def by simp
  qed
qed

lemma length_partition_filter:
  "length ([x \<leftarrow> xs. Q x \<and> P x] @ [x \<leftarrow> xs. Q x \<and> \<not> P x]) = length [x \<leftarrow> xs. Q x]"
  by (induction xs) auto

lemma distinct_partition_filter:
  assumes "distinct (map f xs)"
  shows "distinct (map f ([x \<leftarrow> xs. Q x \<and> P x] @ [x \<leftarrow> xs. Q x \<and> \<not> P x]))"
proof -
  from assms have inj: "inj_on f (set xs)"
    by (simp add: distinct_map)
  then have "f ` set [x \<leftarrow> xs. Q x \<and> P x] \<inter> f ` set [x \<leftarrow> xs. Q x \<and> \<not> P x] = {}"
    by (auto dest: inj_onD)
  with assms show ?thesis
    by (simp add: distinct_map_filter)
qed

text \<open>
  C5. For every hour, healthy flag and diet, \<open>filter_dishes\<close> returns at most three
  dishes: the exact matches (slot, healthy, and diet unless the diet is "any") in
  catalog order, followed by the slot's other dishes in catalog order, cut after the
  third; so it returns three dishes, or all the slot's dishes when the slot has fewer.
  The result repeats no dish when the catalog repeats none, and no dish name when the
  catalog repeats no name. The catalog is a parameter: the module that holds it is
  not among the sources.
\<close>

theorem filter_dishes_selection:
  "length (filter_dishes DISHES hour h dt) \<le> 3
   \<and> filter_dishes DISHES hour h dt =
       take 3 ([d \<leftarrow> DISHES. time d = get_time_category hour \<and> healthy d = h
                   \<and> (dt = ascii ''any'' \<or> diet d = dt)]
               @ [d \<leftarrow> DISHES. time d = get_time_category hour
                   \<and> \<not> (healthy d = h \<and> (dt = ascii ''any'' \<or> diet d = dt))])
   \<and> length (filter_dishes DISHES hour h dt)
       = min 3 (length [d \<leftarrow> DISHES. time d = get_time_category hour])
   \<and> (distinct DISHES \<longrightarrow> distinct (filter_dishes DISHES hour h dt))
   \<and> (distinct (map name DISHES) \<longrightarrow> distinct (map name (filter_dishes DISHES hour h dt)))"
proof (intro conjI impI)
  show "length (filter_dishes DISHES hour h dt) \<le> 3"
    by (simp add: filter_dishes_eq)
  show "filter_dishes DISHES hour h dt =
       take 3 ([d \<leftarrow> DISHES. time d = get_time_category hour \<and> healthy d = h
                   \<and> (dt = ascii ''any'' \<or> diet d = dt)]
               @ [d \<leftarrow> DISHES. time d = get_time_category hour
                   \<and> \<not> (healthy d = h \<and> (dt = ascii ''any'' \<or> diet d = dt))])"
    by (rule filter_dishes_eq)
  show "length (filter_dishes DISHES hour h dt)
       = min 3 (length [d \<leftarrow> DISHES. time d = get_time_category hour])"
    unfolding filter_dishes_eq length_take length_partition_filter by simp
next
  assume "distinct DISHES"
  then have "distinct (map (\<lambda>d. d) DISHES)" by simp
  then have "distinct (map (\<lambda>d. d)
      ([d \<leftarrow> DISHES. time d = get_time_category hour
           \<and> (healthy d = h \<and> (dt = ascii ''any'' \<or> diet d = dt))]
       @ [d \<leftarrow> DISHES. time d = get_time_category hour
           \<and> \<not> (healthy d = h \<and> (dt = ascii ''any'' \<or> diet d = dt))]))"
    by (rule distinct_partition_filter)
  then have "distinct
      ([d \<leftarrow> DISHES. time d = get_time_category hour \<and> healthy d = h
           \<and> (dt = ascii ''any'' \<or> diet d = dt)]
       @ [d \<leftarrow> DISHES. time d = get_time_category hour
           \<and> \<not> (healthy d = h \<and> (dt = ascii ''any'' \<or> diet d = dt))])"
    by simp
  then show "distinct (filter_dishes DISHES hour h dt)"
    unfolding filter_dishes_eq by (rule distinct_take)
next
  assume "distinct (map name DISHES)"
  then have "distinct (map name
      ([d \<leftarrow> DISHES. time d = get_time_category hour
           \<and> (healthy d = h \<and> (dt = ascii ''any'' \<or> diet d = dt))]
       @ [d \<leftarrow> DISHES. time d = get_time_category hour
           \<and> \<not> (healthy d = h \<and> (dt = ascii ''any'' \<or> diet d = dt))]))"
    by (rule distinct_partition_filter)
  then show "distinct (map name (filter_dishes DISHES hour h dt))"
    unfolding filter_dishes_eq take_map [symmetric] by (rule distinct_take)
qed

text \<open>
  On the example catalog, hour 8, not healthy, meat: the one exact match, then the
  first two of the other three breakfast dishes.
\<close>

theorem filter_dishes_selection_witness:
  "distinct example_dishes \<and> distinct (map name example_dishes)
   \<and> filter_dishes example_dishes 8 False (ascii ''meat'') = [bacon, omelette, porridge]
   \<and> distinct (filter_dishes example_dishes 8 False (ascii ''meat''))
   \<and> distinct (map name (filter_dishes example_dishes 8 False (ascii ''meat'')))"
proof -
  have d: "distinct example_dishes" "distinct (map name example_dishes)"
    by (simp_all add: example_dishes_def omelette_def bacon_def porridge_def soup_def
        pancakes_def ascii_def)
  have r: "filter_dishes example_dishes 8 False (ascii ''meat'') = [bacon, omelette, porridge]"
    by (simp add: filter_dishes_def Let_def get_time_category_def example_dishes_def
        omelette_def bacon_def porridge_def soup_def pancakes_def ascii_def)
  from filter_dishes_selection [of example_dishes 8 False "ascii ''meat''"] d
  have "distinct (filter_dishes example_dishes 8 False (ascii ''meat''))"
    and "distinct (map name (filter_dishes example_dishes 8 False (ascii ''meat'')))"
    by blast+
  with d r show ?thesis by blast
qed

section \<open>Properties of request handling\<close>

lemma is_rate_limited_True:
  "fst (is_rate_limited now user_id s) \<Longrightarrow> is_rate_limited now user_id s = (True, s)"
  by (simp add: is_rate_limited_def split: option.splits if_splits)

lemma is_rate_limited_False:
  "\<not> fst (is_rate_limited now user_id s) \<Longrightarrow>
   is_rate_limited now user_id s =
     (False, s\<lparr>last_request_time := (last_request_time s)(user_id \<mapsto> now)\<rparr>)"
  by (simp add: is_rate_limited_def split: option.splits if_splits)

lemma is_rate_limited_iff:
  "fst (is_rate_limited now user_id s) \<longleftrightarrow>
   (\<exists>t. last_request_time s user_id = Some t \<and> now - t < timedelta_minutes 1)"
  by (simp add: is_rate_limited_def split: option.splits)

lemma hci_limited:
  "fst (is_rate_limited now1 user_id s) \<Longrightarrow>
   handle_cooking_internal DISHES now1 now2 hour user_id s = (s, [Answer MSG_WAIT None])"
  by (simp add: handle_cooking_internal_def is_rate_limited_True)

lemma hci_must_pay:
  "\<not> fst (is_rate_limited now1 user_id s) \<Longrightarrow> user_id \<notin> paid_users s \<Longrightarrow>
   1 \<le> dict_get (free_attempts s) user_id 0 \<Longrightarrow>
   handle_cooking_internal DISHES now1 now2 hour user_id s =
     (s\<lparr>last_request_time := (last_request_time s)(user_id \<mapsto> now1)\<rparr>,
      [Answer MSG_UPSELL (Some build_payment_kb)])"
  by (simp add: handle_cooking_internal_def is_rate_limited_False)

lemma hci_paid_users:
  "paid_users (fst (handle_cooking_internal DISHES now1 now2 hour user_id s)) = paid_users s"
  by (simp add: handle_cooking_internal_def is_rate_limited_def Let_def
      split: option.splits prod.splits if_splits)

lemma hci_last_request_time:
  "\<not> fst (is_rate_limited now1 user_id s) \<Longrightarrow>
   last_request_time (fst (handle_cooking_internal DISHES now1 now2 hour user_id s))
     = (last_request_time s)(user_id \<mapsto> now1)"
  by (simp add: handle_cooking_internal_def is_rate_limited_False Let_def
      split: option.splits prod.splits if_splits)

lemma hci_free_attempts:
  "free_attempts (fst (handle_cooking_internal DISHES now1 now2 hour user_id s)) =
     (if \<not> fst (is_rate_limited now1 user_id s) \<and> user_id \<notin> paid_users s
         \<and> dict_get (free_attempts s) user_id 0 < 1
      then (free_attempts s)(user_id \<mapsto> dict_get (free_attempts s) user_id 0 + 1)
      else free_attempts s)"
proof (cases "fst (is_rate_limited now1 user_id s)")
  case True
  then show ?thesis by (simp add: hci_limited)
next
  case False
  then show ?thesis
    by (simp add: handle_cooking_internal_def is_rate_limited_False Let_def
        split: option.splits prod.splits)
qed


lemma hci_non_entitled_reply:
  assumes "\<not> fst (is_rate_limited now1 user_id s)" and "user_id \<notin> paid_users s"
    and "dict_get (free_attempts s) user_id 0 < 1"
  shows "snd (handle_cooking_internal DISHES now1 now2 hour user_id s)
         \<noteq> [Answer MSG_UPSELL (Some build_payment_kb)]"
  using assms
  by (simp add: handle_cooking_internal_def is_rate_limited_False Let_def render_reply_def
      REPLY_HEADER_def MSG_UPSELL_def split: option.splits)

text \<open>The first request of a user the storage has never seen asks the health question.\<close>

lemma hci_first_request:
  "handle_cooking_internal DISHES now1 now2 hour user_id init_state =
     (init_state\<lparr>free_attempts := [user_id \<mapsto> 1], last_request_time := [user_id \<mapsto> now1],
        fsm := (\<lambda>_. fsm_clear)(user_id :=
          fsm_clear\<lparr>fsm_state := Some asking_health, data_pending_hour := Some hour\<rparr>)\<rparr>,
      [Answer MSG_ASK_HEALTH (Some build_health_kb)])"
  by (simp add: handle_cooking_internal_def is_rate_limited_def init_state_def dict_get_def
      fsm_clear_def)

text \<open>
  C1, as the code has it. The quota check comes after the rate-limit gate. For a user
  who has not paid, on a cooking request that passes the rate limit: if the
  free-attempt count is at least 1, the reply is the upsell prompt and nothing else
  happens (only the request time is recorded: no question, no selection, no cache
  work); if the count is below 1, the count is incremented and the reply is not the
  upsell prompt. After one free use (count 0 before it), every further cooking request
  of that user gets the wait notice when it is rate-limited and the upsell prompt
  otherwise, so never a recommendation.
\<close>

theorem quota_check_after_rate_limit:
  assumes "user_id \<notin> paid_users s" and "\<not> fst (is_rate_limited now1 user_id s)"
  shows "(1 \<le> dict_get (free_attempts s) user_id 0 \<longrightarrow>
            handle_cooking_internal DISHES now1 now2 hour user_id s =
              (s\<lparr>last_request_time := (last_request_time s)(user_id \<mapsto> now1)\<rparr>,
               [Answer MSG_UPSELL (Some build_payment_kb)]))
       \<and> (dict_get (free_attempts s) user_id 0 < 1 \<longrightarrow>
            free_attempts (fst (handle_cooking_internal DISHES now1 now2 hour user_id s)) =
              (free_attempts s)(user_id \<mapsto> dict_get (free_attempts s) user_id 0 + 1)
            \<and> snd (handle_cooking_internal DISHES now1 now2 hour user_id s)
                \<noteq> [Answer MSG_UPSELL (Some build_payment_kb)])
       \<and> (dict_get (free_attempts s) user_id 0 = 0 \<longrightarrow>
            (\<forall>now1' now2' hour'.
               snd (handle_cooking_internal DISHES now1' now2' hour' user_id
                      (fst (handle_cooking_internal DISHES now1 now2 hour user_id s))) =
                 (if fst (is_rate_limited now1' user_id
                            (fst (handle_cooking_internal DISHES now1 now2 hour user_id s)))
                  then [Answer MSG_WAIT None]
                  else [Answer MSG_UPSELL (Some build_payment_kb)])))"
proof (intro conjI impI allI)
  assume "1 \<le> dict_get (free_attempts s) user_id 0"
  with assms show "handle_cooking_internal DISHES now1 now2 hour user_id s =
      (s\<lparr>last_request_time := (last_request_time s)(user_id \<mapsto> now1)\<rparr>,
       [Answer MSG_UPSELL (Some build_payment_kb)])"
    by (simp add: hci_must_pay)
next
  assume "dict_get (free_attempts s) user_id 0 < 1"
  with assms show "free_attempts (fst (handle_cooking_internal DISHES now1 now2 hour user_id s)) =
      (free_attempts s)(user_id \<mapsto> dict_get (free_attempts s) user_id 0 + 1)"
    by (simp add: hci_free_attempts)
next
  assume "dict_get (free_attempts s) user_id 0 < 1"
  with assms show "snd (handle_cooking_internal DISHES now1 now2 hour user_id s)
      \<noteq> [Answer MSG_UPSELL (Some build_payment_kb)]"
    by (simp add: hci_non_entitled_reply)
next
  fix now1' now2' hour'
  let ?s' = "fst (handle_cooking_internal DISHES now1 now2 hour user_id s)"
  assume zero: "dict_get (free_attempts s) user_id 0 = 0"
  with assms have "free_attempts ?s' = (free_attempts s)(user_id \<mapsto> 1)"
    by (simp add: hci_free_attempts)
  then have used: "1 \<le> dict_get (free_attempts ?s') user_id 0"
    by (simp add: dict_get_def)
  from assms have unpaid: "user_id \<notin> paid_users ?s'"
    by (simp add: hci_paid_users)
  show "snd (handle_cooking_internal DISHES now1' now2' hour' user_id ?s') =
      (if fst (is_rate_limited now1' user_id ?s') then [Answer MSG_WAIT None]
       else [Answer MSG_UPSELL (Some build_payment_kb)])"
  proof (cases "fst (is_rate_limited now1' user_id ?s')")
    case True
    then show ?thesis by (simp add: hci_limited)
  next
    case False
    with unpaid used show ?thesis by (simp add: hci_must_pay)
  qed
qed

text \<open>
  A new user's request at time 0 uses the free attempt; a next one 70 seconds later
  passes the rate limit and gets the upsell prompt, a next one 10 seconds later the
  wait notice.
\<close>

theorem quota_check_after_rate_limit_witness:
  "1 \<notin> paid_users init_state \<and> \<not> fst (is_rate_limited 0 1 init_state)
   \<and> dict_get (free_attempts init_state) 1 0 = 0
   \<and> free_attempts (fst (handle_cooking_internal example_dishes 0 0 8 1 init_state)) 1 = Some 1
   \<and> snd (handle_cooking_internal example_dishes 0 0 8 1 init_state)
        \<noteq> [Answer MSG_UPSELL (Some build_payment_kb)]
   \<and> \<not> fst (is_rate_limited 70000000 1
               (fst (handle_cooking_internal example_dishes 0 0 8 1 init_state)))
   \<and> handle_cooking_internal example_dishes 70000000 70000000 8 1
        (fst (handle_cooking_internal example_dishes 0 0 8 1 init_state))
      = ((fst (handle_cooking_internal example_dishes 0 0 8 1 init_state))
           \<lparr>last_request_time := [1 \<mapsto> 70000000]\<rparr>,
         [Answer MSG_UPSELL (Some build_payment_kb)])
   \<and> fst (is_rate_limited 10000000 1
             (fst (handle_cooking_internal example_dishes 0 0 8 1 init_state)))
   \<and> snd (handle_cooking_internal example_dishes 10000000 10000000 13 1
            (fst (handle_cooking_internal example_dishes 0 0 8 1 init_state)))
      = [Answer MSG_WAIT None]"
proof -
  let ?s1 = "fst (handle_cooking_internal example_dishes 0 0 8 1 init_state)"
  have h: "1 \<notin> paid_users init_state" "\<not> fst (is_rate_limited 0 1 init_state)"
    "dict_get (free_attempts init_state) 1 0 = 0" "dict_get (free_attempts init_state) 1 0 < 1"
    by (simp_all add: init_state_def is_rate_limited_def dict_get_def)
  have h1: "1 \<notin> paid_users ?s1" "\<not> fst (is_rate_limited 70000000 1 ?s1)"
    "1 \<le> dict_get (free_attempts ?s1) 1 0"
    "(last_request_time ?s1)(1 \<mapsto> 70000000) = [1 \<mapsto> 70000000]"
    unfolding hci_first_request
    by (simp_all add: init_state_def is_rate_limited_def dict_get_def timedelta_minutes_def)
  from quota_check_after_rate_limit [OF h(1,2), of example_dishes 0 8] h(4)
  have a: "free_attempts ?s1 = (free_attempts init_state)(1 \<mapsto> dict_get (free_attempts init_state) 1 0 + 1)"
    and b: "snd (handle_cooking_internal example_dishes 0 0 8 1 init_state)
        \<noteq> [Answer MSG_UPSELL (Some build_payment_kb)]"
    by blast+
  from quota_check_after_rate_limit [OF h1(1,2), of example_dishes 70000000 8] h1(3)
  have c: "handle_cooking_internal example_dishes 70000000 70000000 8 1 ?s1 =
      (?s1\<lparr>last_request_time := (last_request_time ?s1)(1 \<mapsto> 70000000)\<rparr>,
       [Answer MSG_UPSELL (Some build_payment_kb)])"
    by blast
  have l: "fst (is_rate_limited 10000000 1 ?s1)"
    unfolding hci_first_request
    by (simp add: init_state_def is_rate_limited_def timedelta_minutes_def)
  from quota_check_after_rate_limit [OF h(1,2), of example_dishes 0 8] h(3)
  have "snd (handle_cooking_internal example_dishes 10000000 10000000 13 1 ?s1) =
      (if fst (is_rate_limited 10000000 1 ?s1) then [Answer MSG_WAIT None]
       else [Answer MSG_UPSELL (Some build_payment_kb)])"
    by blast
  with l have d: "snd (handle_cooking_internal example_dishes 10000000 10000000 13 1 ?s1)
      = [Answer MSG_WAIT None]"
    by simp
  from a h(3) have "free_attempts ?s1 1 = Some 1" by simp
  with h h1 b c l d show ?thesis by simp
qed

text \<open>
  C1 as stated fails: a user who has not paid and whose count is 1 sends a cooking
  request 10 seconds after the previous one and gets the wait notice, not the upsell
  prompt.
\<close>

theorem quota_check_counterexample:
  "1 \<notin> paid_users (fst (handle_cooking_internal example_dishes 0 0 8 1 init_state))
   \<and> 1 \<le> dict_get (free_attempts (fst (handle_cooking_internal example_dishes 0 0 8 1 init_state))) 1 0
   \<and> snd (handle_cooking_internal example_dishes 10000000 10000000 8 1
            (fst (handle_cooking_internal example_dishes 0 0 8 1 init_state)))
      = [Answer MSG_WAIT None]
   \<and> [Answer MSG_WAIT None] \<noteq> [Answer MSG_UPSELL (Some build_payment_kb)]"
  unfolding hci_first_request
  by (simp add: handle_cooking_internal_def is_rate_limited_def init_state_def dict_get_def
      timedelta_minutes_def MSG_WAIT_def MSG_UPSELL_def)

section \<open>Properties of strings and cache keys\<close>

lemma startswith_iff: "startswith s p \<longleftrightarrow> (\<exists>r. s = p @ r)"
proof
  assume "startswith s p"
  then have "s = p @ drop (length p) s"
    unfolding startswith_def by (metis append_take_drop_id)
  then show "\<exists>r. s = p @ r" ..
next
  assume "\<exists>r. s = p @ r"
  then show "startswith s p"
    by (auto simp: startswith_def)
qed

lemma startswith_append_same [simp]: "startswith (p @ s) (p @ q) = startswith s q"
  by (simp add: startswith_def)

lemma append_sep_eq:
  "c \<notin> set xs \<Longrightarrow> c \<notin> set ys \<Longrightarrow> xs @ c # a = ys @ c # b \<longleftrightarrow> xs = ys \<and> a = b"
proof (induction xs arbitrary: ys)
  case Nil
  then show ?case by (cases ys) auto
next
  case (Cons x xs)
  then show ?case by (cases ys) auto
qed

lemma startswith_sep:
  assumes "c \<notin> set xs" and "c \<notin> set ys"
  shows "startswith (ys @ c # v) (xs @ c # u) \<longleftrightarrow> xs = ys \<and> startswith v u"
proof
  assume "startswith (ys @ c # v) (xs @ c # u)"
  then obtain r where "ys @ c # v = xs @ c # (u @ r)"
    by (auto simp: startswith_iff)
  with assms have "ys = xs \<and> v = u @ r"
    by (simp add: append_sep_eq)
  then show "xs = ys \<and> startswith v u"
    by (auto simp: startswith_iff)
next
  assume "xs = ys \<and> startswith v u"
  then show "startswith (ys @ c # v) (xs @ c # u)"
    by (auto simp: startswith_iff)
qed

lemma replace_first_prefix:
  "startswith s old \<Longrightarrow> old \<noteq> [] \<Longrightarrow> replace_first old new s = new @ drop (length old) s"
  by (cases s) (auto simp: startswith_def)

text \<open>
  Decimal numerals: \<open>str_nat\<close> writes digits only, and \<open>digits_value\<close> reads the
  number back, so two integers with the same numeral are equal.
\<close>

lemma str_nat_digits: "set (str_nat n) \<subseteq> {48..57}"
proof (induction n rule: str_nat.induct)
  case (1 n)
  show ?case
  proof (cases "n < 10")
    case True
    then show ?thesis by (subst str_nat.simps) simp
  next
    case False
    have "n mod 10 < 10" by simp
    then have "48 + n mod 10 \<in> {48..57}" by (simp del: mod_less_divisor)
    with False 1 show ?thesis by (subst str_nat.simps) simp
  qed
qed

lemma str_nat_nonempty: "str_nat n \<noteq> []"
  by (subst str_nat.simps) simp


lemma digits_value_str_nat: "digits_value (str_nat n) = n"
proof (induction n rule: str_nat.induct)
  case (1 n)
  show ?case
  proof (cases "n < 10")
    case True
    then show ?thesis by (subst str_nat.simps) (simp add: digits_value_def)
  next
    case False
    with 1 have "digits_value (str_nat (n div 10)) = n div 10" by simp
    with False show ?thesis
      by (subst str_nat.simps) (simp add: digits_value_def)
  qed
qed

lemma str_nat_inj: "str_nat m = str_nat n \<Longrightarrow> m = n"
  by (metis digits_value_str_nat)

lemma str_int_inj: "str_int i = str_int j \<Longrightarrow> i = j"
proof -
  assume eq: "str_int i = str_int j"
  have hd: "hd (str_nat n) \<noteq> 45" for n
  proof -
    have "hd (str_nat n) \<in> set (str_nat n)" by (simp add: str_nat_nonempty)
    with str_nat_digits [of n] show ?thesis by auto
  qed
  have ne: "45 # xs \<noteq> str_nat n" for xs n
    using hd [of n] by (metis list.sel(1))
  show "i = j"
  proof (cases "i < 0"; cases "j < 0")
    assume "i < 0" "j < 0"
    with eq have "nat (- i) = nat (- j)" by (auto simp: str_int_def dest: str_nat_inj)
    with \<open>i < 0\<close> \<open>j < 0\<close> show ?thesis by simp
  next
    assume "i < 0" "\<not> j < 0"
    with eq ne show ?thesis by (auto simp: str_int_def)
  next
    assume "\<not> i < 0" "j < 0"
    with eq ne [of "str_nat (nat (- j))" "nat i"] show ?thesis by (auto simp: str_int_def)
  next
    assume "\<not> i < 0" "\<not> j < 0"
    with eq have "nat i = nat j" by (auto simp: str_int_def dest: str_nat_inj)
    with \<open>\<not> i < 0\<close> \<open>\<not> j < 0\<close> show ?thesis by simp
  qed
qed

lemma underscore_notin_str_int: "95 \<notin> set (str_int i)"
  using str_nat_digits [of "nat i"] str_nat_digits [of "nat (- i)"]
  by (auto simp: str_int_def)

lemma underscore_notin_str_bool: "95 \<notin> set (str_bool b)"
  by (simp add: str_bool_def ascii_def)

lemma str_bool_inj: "str_bool a = str_bool b \<Longrightarrow> a = b"
  by (auto simp: str_bool_def ascii_def split: if_splits)

text \<open>
  The diets that \<open>diet_map\<close> can store are meat, fish and veg. None of them is a
  proper prefix of another one followed by the separator, so the prefix test of line
  166 on an entry that line 182 wrote compares the two keys exactly.
\<close>

lemma diet_map_values:
  "diet_map x = Some d \<Longrightarrow> d = ascii ''meat'' \<or> d = ascii ''fish'' \<or> d = ascii ''veg''"
  by (simp add: diet_map_def split: if_splits)

lemma diet_prefix:
  assumes "diet_map x = Some d" and "diet_map x' = Some d'"
  shows "startswith (d' @ ascii ''||'' @ r) d \<longleftrightarrow> d = d'"
proof -
  from assms(1) have "d = ascii ''meat'' \<or> d = ascii ''fish'' \<or> d = ascii ''veg''"
    by (rule diet_map_values)
  moreover from assms(2) have "d' = ascii ''meat'' \<or> d' = ascii ''fish'' \<or> d' = ascii ''veg''"
    by (rule diet_map_values)
  ultimately show ?thesis
    by (elim disjE; simp add: ascii_def startswith_def)
qed

lemma cache_key_match:
  assumes "diet_map x = Some d" and "diet_map x' = Some d'"
  shows "startswith (CACHE_MARK @ cache_key h' b' d' @ ascii ''||'' @ r) (CACHE_MARK @ cache_key h b d)
         \<longleftrightarrow> h' = h \<and> b' = b \<and> d' = d"
proof -
  have us: "ascii ''_'' = [95]" by (simp add: ascii_def)
  have "startswith (CACHE_MARK @ cache_key h' b' d' @ ascii ''||'' @ r) (CACHE_MARK @ cache_key h b d)
        \<longleftrightarrow> startswith (str_int h' @ 95 # (str_bool b' @ 95 # (d' @ ascii ''||'' @ r)))
                        (str_int h @ 95 # (str_bool b @ 95 # d))"
    by (simp add: cache_key_def us)
  also have "\<dots> \<longleftrightarrow> str_int h = str_int h'
                   \<and> startswith (str_bool b' @ 95 # (d' @ ascii ''||'' @ r)) (str_bool b @ 95 # d)"
    by (rule startswith_sep) (rule underscore_notin_str_int)+
  also have "startswith (str_bool b' @ 95 # (d' @ ascii ''||'' @ r)) (str_bool b @ 95 # d)
             \<longleftrightarrow> str_bool b = str_bool b' \<and> startswith (d' @ ascii ''||'' @ r) d"
    by (rule startswith_sep) (rule underscore_notin_str_bool)+
  also have "startswith (d' @ ascii ''||'' @ r) d \<longleftrightarrow> d = d'"
    using assms by (rule diet_prefix)
  finally show ?thesis
    using str_int_inj [of h h'] str_bool_inj [of b b'] by blast
qed

lemma cache_entry_strip:
  "replace_first (CACHE_MARK @ k @ ascii ''||'') [] (CACHE_MARK @ k @ ascii ''||'' @ r) = r"
proof -
  have "startswith (CACHE_MARK @ k @ ascii ''||'' @ r) (CACHE_MARK @ k @ ascii ''||'')"
    by (simp add: startswith_iff)
  moreover have "CACHE_MARK @ k @ ascii ''||'' \<noteq> []"
    by (simp add: CACHE_MARK_def)
  ultimately have "replace_first (CACHE_MARK @ k @ ascii ''||'') [] (CACHE_MARK @ k @ ascii ''||'' @ r)
                   = [] @ drop (length (CACHE_MARK @ k @ ascii ''||'')) (CACHE_MARK @ k @ ascii ''||'' @ r)"
    by (rule replace_first_prefix)
  then show ?thesis by simp
qed

section \<open>Properties of the rate limit\<close>

lemma time_map_suggest: "time_map d = Some h \<Longrightarrow> startswith d (ascii ''suggest_'')"
  by (auto simp: time_map_def startswith_def ascii_def split: if_splits)

text \<open>
  C8, as the code has it. The timestamp that is compared is the one recorded at the
  user's last allowed request: a rejected request records nothing. A cooking request
  (a text message or a time-suggestion button) that arrives less than 60 seconds after
  that timestamp is answered with the wait notice and leaves the whole storage as it
  was: quota, session, cache, timestamps. A request that is allowed (no timestamp yet,
  or 60 seconds or more since it) records its own time as the user's timestamp.
\<close>

theorem rate_limit_frame:
  "(last_request_time s user_id = Some t \<and> now1 - t < timedelta_minutes 1 \<longrightarrow>
      handle_cooking_internal DISHES now1 now2 hour user_id s = (s, [Answer MSG_WAIT None])
      \<and> dispatch U DISHES \<lparr>now_hour = h0, now_rate = now1, now_cache = now2\<rparr>
           (TextMessage user_id msg_text) s = Inr (s, [Answer MSG_WAIT None])
      \<and> (time_map callback_data \<noteq> None \<longrightarrow>
           dispatch U DISHES \<lparr>now_hour = h0, now_rate = now1, now_cache = now2\<rparr>
             (CallbackQuery user_id callback_data) s
           = Inr (s, [Answer MSG_WAIT None, CallbackAnswer None False])))
   \<and> (last_request_time s user_id = None
        \<or> (\<exists>t'. last_request_time s user_id = Some t' \<and> timedelta_minutes 1 \<le> now1 - t') \<longrightarrow>
      last_request_time (fst (handle_cooking_internal DISHES now1 now2 hour user_id s)) user_id
        = Some now1)"
proof (intro conjI impI)
  assume a: "last_request_time s user_id = Some t \<and> now1 - t < timedelta_minutes 1"
  then have lim: "fst (is_rate_limited now1 user_id s)"
    by (simp add: is_rate_limited_iff)
  then show w: "handle_cooking_internal DISHES now1 now2 hour user_id s = (s, [Answer MSG_WAIT None])"
    by (rule hci_limited)
  from lim show "dispatch U DISHES \<lparr>now_hour = h0, now_rate = now1, now_cache = now2\<rparr>
      (TextMessage user_id msg_text) s = Inr (s, [Answer MSG_WAIT None])"
    by (simp add: dispatch_def handle_cooking_query_def hci_limited)
  assume "time_map callback_data \<noteq> None"
  then obtain h where h: "time_map callback_data = Some h" by blast
  then have "startswith callback_data (ascii ''suggest_'')" by (rule time_map_suggest)
  with h lim show "dispatch U DISHES \<lparr>now_hour = h0, now_rate = now1, now_cache = now2\<rparr>
      (CallbackQuery user_id callback_data) s
      = Inr (s, [Answer MSG_WAIT None, CallbackAnswer None False])"
    by (simp add: dispatch_def handle_time_suggestion_def hci_limited)
next
  assume "last_request_time s user_id = None
      \<or> (\<exists>t'. last_request_time s user_id = Some t' \<and> timedelta_minutes 1 \<le> now1 - t')"
  then have "\<not> fst (is_rate_limited now1 user_id s)"
    by (auto simp: is_rate_limited_iff)
  then show "last_request_time (fst (handle_cooking_internal DISHES now1 now2 hour user_id s)) user_id
      = Some now1"
    by (simp add: hci_last_request_time)
qed

text \<open>
  A first request at time 0 is recorded; a lunch suggestion one microsecond short of a
  minute later gets the wait notice and changes nothing.
\<close>

theorem rate_limit_frame_witness:
  "last_request_time (fst (handle_cooking_internal example_dishes 0 0 8 1 init_state)) 1 = Some 0
   \<and> (59999999::int) - 0 < timedelta_minutes 1
   \<and> last_request_time init_state 1 = None
   \<and> time_map (ascii ''suggest_lunch'') \<noteq> None
   \<and> handle_cooking_internal example_dishes 59999999 59999999 13 1
        (fst (handle_cooking_internal example_dishes 0 0 8 1 init_state))
      = (fst (handle_cooking_internal example_dishes 0 0 8 1 init_state), [Answer MSG_WAIT None])
   \<and> dispatch basic_tables example_dishes \<lparr>now_hour = 12, now_rate = 59999999, now_cache = 59999999\<rparr>
        (CallbackQuery 1 (ascii ''suggest_lunch''))
        (fst (handle_cooking_internal example_dishes 0 0 8 1 init_state))
      = Inr (fst (handle_cooking_internal example_dishes 0 0 8 1 init_state),
             [Answer MSG_WAIT None, CallbackAnswer None False])"
proof -
  let ?s1 = "fst (handle_cooking_internal example_dishes 0 0 8 1 init_state)"
  have n: "last_request_time init_state 1 = None"
    by (simp add: init_state_def)
  with rate_limit_frame [of init_state 1 0 0 example_dishes 0 8]
  have r: "last_request_time ?s1 1 = Some 0"
    by blast
  have l: "(59999999::int) - 0 < timedelta_minutes 1"
    by (simp add: timedelta_minutes_def)
  have m: "time_map (ascii ''suggest_lunch'') \<noteq> None"
    by (simp add: time_map_def ascii_def)
  from rate_limit_frame [of ?s1 1 0 59999999 example_dishes 59999999 13 basic_tables 12 _
      "ascii ''suggest_lunch''"] r l m
  have "handle_cooking_internal example_dishes 59999999 59999999 13 1 ?s1
          = (?s1, [Answer MSG_WAIT None])"
    and "dispatch basic_tables example_dishes
           \<lparr>now_hour = 12, now_rate = 59999999, now_cache = 59999999\<rparr>
           (CallbackQuery 1 (ascii ''suggest_lunch'')) ?s1
         = Inr (?s1, [Answer MSG_WAIT None, CallbackAnswer None False])"
    by blast+
  with r l n m show ?thesis by blast
qed

text \<open>
  C8 as stated fails for a pair whose first request was itself rejected. Requests at 0,
  50 and 70 seconds: the second gets the wait notice and records nothing, so the
  third, 20 seconds after the second, is not rate-limited (it gets the upsell prompt).
\<close>

theorem rate_limit_pairs_counterexample:
  "snd (handle_cooking_internal example_dishes 50000000 50000000 8 1
          (fst (handle_cooking_internal example_dishes 0 0 8 1 init_state)))
     = [Answer MSG_WAIT None]
   \<and> (70000000::int) - 50000000 < timedelta_minutes 1
   \<and> snd (handle_cooking_internal example_dishes 70000000 70000000 8 1
            (fst (handle_cooking_internal example_dishes 50000000 50000000 8 1
                    (fst (handle_cooking_internal example_dishes 0 0 8 1 init_state)))))
     = [Answer MSG_UPSELL (Some build_payment_kb)]
   \<and> [Answer MSG_UPSELL (Some build_payment_kb)] \<noteq> [Answer MSG_WAIT None]"
  unfolding hci_first_request
  by (simp add: handle_cooking_internal_def is_rate_limited_def init_state_def dict_get_def
      timedelta_minutes_def MSG_WAIT_def MSG_UPSELL_def)

section \<open>Properties of the entitlement grant\<close>

lemma buy_access_not_filtered:
  "\<not> startswith (ascii ''buy_access'') (ascii ''suggest_'')"
  "\<not> startswith (ascii ''buy_access'') (ascii ''healthy_'')"
  "\<not> startswith (ascii ''buy_access'') (ascii ''diet_'')"
  by (simp_all add: startswith_def ascii_def)

text \<open>
  C6. \<open>buy_access\<close> for a user who has paid only signals "already paid" and writes
  nothing; otherwise it adds the user to the paid users and removes the user's
  free-attempt count and cached response. A second call right after the first finds
  the user paid, so it signals "already paid" and leaves the storage of the first
  call: quota and cache are reset once. The router hands every \<^verbatim>\<open>buy_access\<close>
  button to this handler, whatever the session state.
\<close>

theorem buy_access_idempotent:
  "(user_id \<in> paid_users s \<longrightarrow>
      buy_access user_id s = (s, [CallbackAnswer (Some MSG_ALREADY_PAID) True]))
   \<and> (user_id \<notin> paid_users s \<longrightarrow>
      fst (buy_access user_id s) =
        s\<lparr>paid_users := insert user_id (paid_users s),
          free_attempts := (free_attempts s)(user_id := None),
          last_response_cache := (last_response_cache s)(user_id := None)\<rparr>)
   \<and> buy_access user_id (fst (buy_access user_id s)) =
       (fst (buy_access user_id s), [CallbackAnswer (Some MSG_ALREADY_PAID) True])
   \<and> dispatch U DISHES clk (CallbackQuery user_id (ascii ''buy_access'')) s
       = Inr (buy_access user_id s)"
  by (simp add: buy_access_def dispatch_def buy_access_not_filtered)

text \<open>A user with one free attempt used buys access; buying again changes nothing.\<close>

theorem buy_access_idempotent_witness:
  "1 \<notin> paid_users (init_state\<lparr>free_attempts := [1 \<mapsto> 1]\<rparr>)
   \<and> fst (buy_access 1 (init_state\<lparr>free_attempts := [1 \<mapsto> 1]\<rparr>))
       = init_state\<lparr>paid_users := {1}\<rparr>
   \<and> 1 \<in> paid_users (init_state\<lparr>paid_users := {1}\<rparr>)
   \<and> buy_access 1 (init_state\<lparr>paid_users := {1}\<rparr>)
       = (init_state\<lparr>paid_users := {1}\<rparr>, [CallbackAnswer (Some MSG_ALREADY_PAID) True])"
proof -
  have a: "1 \<notin> paid_users (init_state\<lparr>free_attempts := [1 \<mapsto> 1]\<rparr>)"
    and b: "1 \<in> paid_users (init_state\<lparr>paid_users := {1}\<rparr>)"
    by (simp_all add: init_state_def)
  from buy_access_idempotent [of 1 "init_state\<lparr>free_attempts := [1 \<mapsto> 1]\<rparr>"] a
  have "fst (buy_access 1 (init_state\<lparr>free_attempts := [1 \<mapsto> 1]\<rparr>)) =
      init_state\<lparr>free_attempts := [1 \<mapsto> 1]\<rparr>
        \<lparr>paid_users := insert 1 (paid_users (init_state\<lparr>free_attempts := [1 \<mapsto> 1]\<rparr>)),
         free_attempts := (free_attempts (init_state\<lparr>free_attempts := [1 \<mapsto> 1]\<rparr>))(1 := None),
         last_response_cache :=
           (last_response_cache (init_state\<lparr>free_attempts := [1 \<mapsto> 1]\<rparr>))(1 := None)\<rparr>"
    by blast
  then have c: "fst (buy_access 1 (init_state\<lparr>free_attempts := [1 \<mapsto> 1]\<rparr>))
      = init_state\<lparr>paid_users := {1}\<rparr>"
    by (simp add: init_state_def)
  from buy_access_idempotent [of 1 "init_state\<lparr>paid_users := {1}\<rparr>"] b
  have "buy_access 1 (init_state\<lparr>paid_users := {1}\<rparr>)
      = (init_state\<lparr>paid_users := {1}\<rparr>, [CallbackAnswer (Some MSG_ALREADY_PAID) True])"
    by blast
  with a b c show ?thesis by blast
qed

section \<open>Properties of the preference session\<close>

lemma healthy_not_other:
  assumes "startswith d (ascii ''healthy_'')"
  shows "\<not> startswith d (ascii ''suggest_'')" "\<not> startswith d (ascii ''diet_'')"
    "d \<noteq> ascii ''buy_access''"
  using assms by (auto simp: startswith_iff ascii_def)

lemma diet_not_other:
  assumes "startswith d (ascii ''diet_'')"
  shows "\<not> startswith d (ascii ''suggest_'')" "\<not> startswith d (ascii ''healthy_'')"
    "d \<noteq> ascii ''buy_access''"
  using assms by (auto simp: startswith_iff ascii_def)

text \<open>
  C9. A health answer (callback data that starts with \<^verbatim>\<open>healthy_\<close>) that arrives
  while the user's session is not in \<open>asking_health\<close>, and a diet answer (data that
  starts with \<^verbatim>\<open>diet_\<close>) that arrives while it is not in \<open>asking_diet\<close>, is
  accepted by no handler: the storage stays as it is, nothing is sent and nothing is
  raised.
\<close>

theorem stale_answer_dropped:
  "(startswith callback_data (ascii ''healthy_'') \<and> fsm_state (fsm s user_id) \<noteq> Some asking_health
      \<longrightarrow> dispatch U DISHES clk (CallbackQuery user_id callback_data) s = Inr (s, []))
   \<and> (startswith callback_data (ascii ''diet_'') \<and> fsm_state (fsm s user_id) \<noteq> Some asking_diet
      \<longrightarrow> dispatch U DISHES clk (CallbackQuery user_id callback_data) s = Inr (s, []))"
  by (simp add: dispatch_def healthy_not_other diet_not_other)

text \<open>In the empty storage no session is open: both answers are dropped.\<close>

theorem stale_answer_dropped_witness:
  "startswith (ascii ''healthy_yes'') (ascii ''healthy_'')
   \<and> fsm_state (fsm init_state 1) \<noteq> Some asking_health
   \<and> dispatch basic_tables example_dishes \<lparr>now_hour = 12, now_rate = 0, now_cache = 0\<rparr>
        (CallbackQuery 1 (ascii ''healthy_yes'')) init_state = Inr (init_state, [])
   \<and> startswith (ascii ''diet_meat'') (ascii ''diet_'')
   \<and> fsm_state (fsm init_state 1) \<noteq> Some asking_diet
   \<and> dispatch basic_tables example_dishes \<lparr>now_hour = 12, now_rate = 0, now_cache = 0\<rparr>
        (CallbackQuery 1 (ascii ''diet_meat'')) init_state = Inr (init_state, [])"
proof -
  have a: "startswith (ascii ''healthy_yes'') (ascii ''healthy_'')"
    "startswith (ascii ''diet_meat'') (ascii ''diet_'')"
    "fsm_state (fsm init_state 1) \<noteq> Some asking_health"
    "fsm_state (fsm init_state 1) \<noteq> Some asking_diet"
    by (simp_all add: startswith_def ascii_def init_state_def fsm_clear_def)
  with stale_answer_dropped [of "ascii ''healthy_yes''" init_state 1 basic_tables example_dishes
      "\<lparr>now_hour = 12, now_rate = 0, now_cache = 0\<rparr>"]
    stale_answer_dropped [of "ascii ''diet_meat''" init_state 1 basic_tables example_dishes
      "\<lparr>now_hour = 12, now_rate = 0, now_cache = 0\<rparr>"]
  show ?thesis by blast
qed

section \<open>The storage after an update\<close>

lemma after_start: "after U DISHES clk (StartCommand user_id) s = s"
  by (simp add: after_def dispatch_def cmd_start_def)

lemma after_text:
  "after U DISHES clk (TextMessage user_id msg_text) s =
     fst (handle_cooking_internal DISHES (now_rate clk) (now_cache clk)
            (parse_hour_from_text U (now_hour clk) msg_text) user_id s)"
  by (simp add: after_def dispatch_def handle_cooking_query_def split: prod.splits)

lemma after_suggest:
  assumes "startswith d (ascii ''suggest_'')"
  shows "after U DISHES clk (CallbackQuery user_id d) s =
     (case time_map d of
        None \<Rightarrow> s
      | Some h \<Rightarrow> fst (handle_cooking_internal DISHES (now_rate clk) (now_cache clk) h user_id s))"
  using assms
  by (simp add: after_def dispatch_def handle_time_suggestion_def split: prod.splits option.splits)

lemma after_health:
  assumes "\<not> startswith d (ascii ''suggest_'')"
    and "fsm_state (fsm s user_id) = Some asking_health" and "startswith d (ascii ''healthy_'')"
  shows "after U DISHES clk (CallbackQuery user_id d) s = fst (process_health d user_id s)"
  using assms by (simp add: after_def dispatch_def split: prod.splits)

lemma after_diet:
  assumes "\<not> startswith d (ascii ''suggest_'')"
    and "fsm_state (fsm s user_id) = Some asking_diet" and "startswith d (ascii ''diet_'')"
    and "diet_map d = Some dt"
    and "r = handle_cooking_internal DISHES (now_rate clk) (now_cache clk)
               (case data_pending_hour (fsm s user_id) of Some h \<Rightarrow> h | None \<Rightarrow> now_hour clk)
               user_id (s\<lparr>fsm := (fsm s)(user_id := (fsm s user_id)\<lparr>data_diet := Some dt\<rparr>)\<rparr>)"
  shows "dispatch U DISHES clk (CallbackQuery user_id d) s =
           Inr ((fst r)\<lparr>fsm := (fsm (fst r))(user_id := fsm_clear)\<rparr>,
                snd r @ [CallbackAnswer None False])"
    and "after U DISHES clk (CallbackQuery user_id d) s =
           (fst r)\<lparr>fsm := (fsm (fst r))(user_id := fsm_clear)\<rparr>"
  using assms
  by (simp_all add: after_def dispatch_def process_diet_def Let_def split: prod.splits)

lemma after_diet_unknown:
  assumes "\<not> startswith d (ascii ''suggest_'')"
    and "fsm_state (fsm s user_id) = Some asking_diet" and "startswith d (ascii ''diet_'')"
    and "diet_map d = None"
  shows "after U DISHES clk (CallbackQuery user_id d) s = s"
  using assms by (simp add: after_def dispatch_def process_diet_def)

lemma after_buy:
  "after U DISHES clk (CallbackQuery user_id (ascii ''buy_access'')) s = fst (buy_access user_id s)"
  by (simp add: after_def dispatch_def buy_access_not_filtered case_prod_unfold)

lemma after_dropped:
  assumes "\<not> startswith d (ascii ''suggest_'')"
    and "\<not> (fsm_state (fsm s user_id) = Some asking_health \<and> startswith d (ascii ''healthy_''))"
    and "\<not> (fsm_state (fsm s user_id) = Some asking_diet \<and> startswith d (ascii ''diet_''))"
    and "d \<noteq> ascii ''buy_access''"
  shows "after U DISHES clk (CallbackQuery user_id d) s = s"
  using assms by (auto simp: after_def dispatch_def)

text \<open>
  Every update leaves the storage as it is, or is one call of \<open>handle_cooking_internal\<close>,
  of \<open>process_health\<close> in state \<open>asking_health\<close>, of \<open>buy_access\<close>, or the replay of
  \<open>process_diet\<close> in state \<open>asking_diet\<close>.
\<close>

lemma after_cases:
  obtains (same) "after U DISHES clk ev s = s"
  | (cook) user_id h where
      "after U DISHES clk ev s =
         fst (handle_cooking_internal DISHES (now_rate clk) (now_cache clk) h user_id s)"
  | (health) user_id d where "fsm_state (fsm s user_id) = Some asking_health"
      "after U DISHES clk ev s = fst (process_health d user_id s)"
  | (replay) user_id d dt r where "fsm_state (fsm s user_id) = Some asking_diet"
      "diet_map d = Some dt"
      "r = handle_cooking_internal DISHES (now_rate clk) (now_cache clk)
             (case data_pending_hour (fsm s user_id) of Some h \<Rightarrow> h | None \<Rightarrow> now_hour clk)
             user_id (s\<lparr>fsm := (fsm s)(user_id := (fsm s user_id)\<lparr>data_diet := Some dt\<rparr>)\<rparr>)"
      "after U DISHES clk ev s = (fst r)\<lparr>fsm := (fsm (fst r))(user_id := fsm_clear)\<rparr>"
  | (buy) user_id where "after U DISHES clk ev s = fst (buy_access user_id s)"
proof (cases ev)
  case (StartCommand user_id)
  show ?thesis
    by (rule same) (simp add: StartCommand after_start)
next
  case (TextMessage user_id msg_text)
  show ?thesis
    by (rule cook) (simp add: TextMessage after_text)
next
  case (CallbackQuery user_id d)
  show ?thesis
  proof (cases "startswith d (ascii ''suggest_'')")
    case True
    show ?thesis
    proof (cases "time_map d")
      case None
      with True show ?thesis
        by (intro same) (simp add: CallbackQuery after_suggest)
    next
      case (Some h)
      with True show ?thesis
        by (intro cook [of h user_id]) (simp add: CallbackQuery after_suggest)
    qed
  next
    case ns: False
    show ?thesis
    proof (cases "fsm_state (fsm s user_id) = Some asking_health \<and> startswith d (ascii ''healthy_'')")
      case True
      with ns show ?thesis
        by (intro health [of user_id d]) (simp_all add: CallbackQuery after_health)
    next
      case nh: False
      show ?thesis
      proof (cases "fsm_state (fsm s user_id) = Some asking_diet \<and> startswith d (ascii ''diet_'')")
        case True
        show ?thesis
        proof (cases "diet_map d")
          case None
          with ns True show ?thesis
            by (intro same) (simp add: CallbackQuery after_diet_unknown)
        next
          case (Some dt)
          with ns True show ?thesis
            by (intro replay [of user_id d dt, OF _ _ refl])
              (simp_all add: CallbackQuery after_diet(2))
        qed
      next
        case nd: False
        show ?thesis
        proof (cases "d = ascii ''buy_access''")
          case True
          then show ?thesis
            by (intro buy [of user_id]) (simp add: CallbackQuery after_buy)
        next
          case False
          with ns nh nd show ?thesis
            by (intro same) (simp add: CallbackQuery after_dropped)
        qed
      qed
    qed
  qed
qed

section \<open>The free-attempt count\<close>

text \<open>What one update does to the count of one user \<open>u\<close>.\<close>

lemma after_free_attempts:
  "free_attempts (after U DISHES clk ev s) u = free_attempts s u
   \<or> (u \<notin> paid_users s \<and> dict_get (free_attempts s) u 0 < 1
       \<and> free_attempts (after U DISHES clk ev s) u = Some (dict_get (free_attempts s) u 0 + 1))
   \<or> (u \<notin> paid_users s \<and> u \<in> paid_users (after U DISHES clk ev s)
       \<and> free_attempts (after U DISHES clk ev s) u = None)"
proof (cases U DISHES clk ev s rule: after_cases)
  case same
  then show ?thesis by simp
next
  case (cook user_id h)
  then show ?thesis by (simp add: hci_free_attempts)
next
  case (health user_id d)
  then show ?thesis by (simp add: process_health_def)
next
  case (replay user_id d dt r)
  from replay(3,4) show ?thesis
    by (simp add: hci_free_attempts is_rate_limited_iff)
next
  case (buy user_id)
  then show ?thesis by (simp add: buy_access_def)
qed

lemma reachable_free_attempts:
  "reachable U DISHES s \<Longrightarrow> free_attempts s u = None \<or> free_attempts s u = Some 1"
proof (induction arbitrary: u rule: reachable.induct)
  case start
  show ?case by (simp add: init_state_def)
next
  case (update s clk ev)
  from update.IH [of u]
  have "dict_get (free_attempts s) u 0 < 1 \<Longrightarrow> dict_get (free_attempts s) u 0 = 0"
    by (auto simp: dict_get_def)
  with update.IH [of u] after_free_attempts [of U DISHES clk ev s u]
  show ?case by auto
qed

text \<open>
  C10. In every storage the bot can reach, a stored free-attempt count is 1, so the
  count never exceeds 1. Every update leaves a user's count as it is, or stores 1 where
  the user has not paid and had no count (the increment from 0 to 1), or removes the
  count as the user becomes a paid user.
\<close>

theorem free_attempts_at_most_one:
  assumes "reachable U DISHES s"
  shows "(free_attempts s user_id = None \<or> free_attempts s user_id = Some 1)
       \<and> dict_get (free_attempts s) user_id 0 \<le> 1
       \<and> (free_attempts (after U DISHES clk ev s) user_id = free_attempts s user_id
          \<or> (user_id \<notin> paid_users s \<and> free_attempts s user_id = None
              \<and> free_attempts (after U DISHES clk ev s) user_id = Some 1)
          \<or> (user_id \<notin> paid_users s \<and> user_id \<in> paid_users (after U DISHES clk ev s)
              \<and> free_attempts (after U DISHES clk ev s) user_id = None))"
proof -
  from assms have v: "free_attempts s user_id = None \<or> free_attempts s user_id = Some 1"
    by (rule reachable_free_attempts)
  then have le: "dict_get (free_attempts s) user_id 0 \<le> 1"
    by (auto simp: dict_get_def)
  from v have "dict_get (free_attempts s) user_id 0 < 1 \<Longrightarrow>
      free_attempts s user_id = None \<and> dict_get (free_attempts s) user_id 0 + 1 = 1"
    by (auto simp: dict_get_def)
  with after_free_attempts [of U DISHES clk ev s user_id]
  have "free_attempts (after U DISHES clk ev s) user_id = free_attempts s user_id
      \<or> (user_id \<notin> paid_users s \<and> free_attempts s user_id = None
          \<and> free_attempts (after U DISHES clk ev s) user_id = Some 1)
      \<or> (user_id \<notin> paid_users s \<and> user_id \<in> paid_users (after U DISHES clk ev s)
          \<and> free_attempts (after U DISHES clk ev s) user_id = None)"
    by auto
  with v le show ?thesis by blast
qed

text \<open>After a new user's breakfast suggestion the storage is reachable and the count is 1.\<close>

theorem free_attempts_at_most_one_witness:
  "reachable basic_tables example_dishes
     (after basic_tables example_dishes \<lparr>now_hour = 12, now_rate = 0, now_cache = 0\<rparr>
        (CallbackQuery 1 (ascii ''suggest_breakfast'')) init_state)
   \<and> free_attempts
       (after basic_tables example_dishes \<lparr>now_hour = 12, now_rate = 0, now_cache = 0\<rparr>
          (CallbackQuery 1 (ascii ''suggest_breakfast'')) init_state) 1 = Some 1
   \<and> dict_get (free_attempts
       (after basic_tables example_dishes \<lparr>now_hour = 12, now_rate = 0, now_cache = 0\<rparr>
          (CallbackQuery 1 (ascii ''suggest_breakfast'')) init_state)) 1 0 \<le> 1"
proof -
  let ?s1 = "after basic_tables example_dishes \<lparr>now_hour = 12, now_rate = 0, now_cache = 0\<rparr>
      (CallbackQuery 1 (ascii ''suggest_breakfast'')) init_state"
  have r: "reachable basic_tables example_dishes ?s1"
    by (rule reachable.update) (rule reachable.start)
  have "startswith (ascii ''suggest_breakfast'') (ascii ''suggest_'')"
    and "time_map (ascii ''suggest_breakfast'') = Some 8"
    by (simp_all add: time_map_def startswith_def ascii_def)
  then have f: "free_attempts ?s1 1 = Some 1"
    by (simp add: after_suggest hci_first_request)
  from free_attempts_at_most_one [OF r, of 1]
  have "dict_get (free_attempts ?s1) 1 0 \<le> 1" by blast
  with r f show ?thesis by blast
qed

section \<open>Properties of the response cache\<close>

text \<open>
  An entitled user's request that passes the rate limit with both preferences known:
  the cached reply if the stored entry is fresh and starts with the marked key, else a
  new reply that is stored.
\<close>

lemma hci_entitled:
  assumes "\<not> fst (is_rate_limited now1 user_id s)" and "user_id \<in> paid_users s"
    and "data_healthy (fsm s user_id) = Some hl" and "data_diet (fsm s user_id) = Some dt"
  shows "handle_cooking_internal DISHES now1 now2 hour user_id s =
       (case last_response_cache s user_id of
          Some (cached_resp, cached_time) \<Rightarrow>
            if now2 - cached_time < timedelta_minutes 5
               \<and> startswith cached_resp (CACHE_MARK @ cache_key hour hl dt)
            then (s\<lparr>last_request_time := (last_request_time s)(user_id \<mapsto> now1)\<rparr>,
                  [Answer (replace_first (CACHE_MARK @ cache_key hour hl dt @ ascii ''||'') []
                             cached_resp) None])
            else (s\<lparr>last_request_time := (last_request_time s)(user_id \<mapsto> now1),
                     last_response_cache := (last_response_cache s)
                       (user_id \<mapsto> (CACHE_MARK @ cache_key hour hl dt @ ascii ''||''
                                        @ new_reply DISHES hour hl dt, now2))\<rparr>,
                  [Answer (new_reply DISHES hour hl dt) None])
        | None \<Rightarrow>
            (s\<lparr>last_request_time := (last_request_time s)(user_id \<mapsto> now1),
               last_response_cache := (last_response_cache s)
                 (user_id \<mapsto> (CACHE_MARK @ cache_key hour hl dt @ ascii ''||''
                                    @ new_reply DISHES hour hl dt, now2))\<rparr>,
             [Answer (new_reply DISHES hour hl dt) None]))"
  using assms
  by (simp add: handle_cooking_internal_def is_rate_limited_False new_reply_def Let_def
      split: option.splits)

lemma hci_cache_not_entitled:
  assumes "user_id \<notin> paid_users s"
  shows "last_response_cache (fst (handle_cooking_internal DISHES now1 now2 hour user_id s))
           = last_response_cache s"
    and "snd (handle_cooking_internal DISHES now1 now2 hour user_id (s\<lparr>last_response_cache := c\<rparr>))
           = snd (handle_cooking_internal DISHES now1 now2 hour user_id s)"
  using assms
  by (simp_all add: handle_cooking_internal_def is_rate_limited_def Let_def
      split: option.splits prod.splits)

text \<open>
  C7. Take a request that passes the rate limit, with both preferences known and the
  diet one that \<open>diet_map\<close> stores. For an entitled user whose cache holds an entry
  that line 182 wrote (for hour \<open>hour0\<close>, flag \<open>hl0\<close>, diet \<open>dt0\<close>, at time \<open>t0\<close>):
  the request is a hit, answered with the cached reply and with the cache untouched,
  exactly when the hour, the flag and the diet are the same and \<open>now2 - t0\<close> is
  under 5 minutes; otherwise, and when no entry exists, a new reply is sent and the
  user's entry is overwritten with it and \<open>now2\<close>. For a user who is not entitled the
  cache is neither read nor written.
\<close>

theorem cache_lookup_and_store:
  assumes "\<not> fst (is_rate_limited now1 user_id s)"
    and "data_healthy (fsm s user_id) = Some hl" and "data_diet (fsm s user_id) = Some dt"
    and "diet_map d = Some dt"
  shows
    "(user_id \<in> paid_users s
        \<and> last_response_cache s user_id
            = Some (CACHE_MARK @ cache_key hour0 hl0 dt0 @ ascii ''||'' @ reply0, t0)
        \<and> diet_map d0 = Some dt0 \<longrightarrow>
      handle_cooking_internal DISHES now1 now2 hour user_id s =
        (if hour0 = hour \<and> hl0 = hl \<and> dt0 = dt \<and> now2 - t0 < timedelta_minutes 5
         then (s\<lparr>last_request_time := (last_request_time s)(user_id \<mapsto> now1)\<rparr>,
               [Answer reply0 None])
         else (s\<lparr>last_request_time := (last_request_time s)(user_id \<mapsto> now1),
                  last_response_cache := (last_response_cache s)
                    (user_id \<mapsto> (CACHE_MARK @ cache_key hour hl dt @ ascii ''||''
                                     @ new_reply DISHES hour hl dt, now2))\<rparr>,
               [Answer (new_reply DISHES hour hl dt) None])))
     \<and> (user_id \<in> paid_users s \<and> last_response_cache s user_id = None \<longrightarrow>
      handle_cooking_internal DISHES now1 now2 hour user_id s =
        (s\<lparr>last_request_time := (last_request_time s)(user_id \<mapsto> now1),
           last_response_cache := (last_response_cache s)
             (user_id \<mapsto> (CACHE_MARK @ cache_key hour hl dt @ ascii ''||''
                              @ new_reply DISHES hour hl dt, now2))\<rparr>,
         [Answer (new_reply DISHES hour hl dt) None]))
     \<and> (user_id \<notin> paid_users s \<longrightarrow>
      last_response_cache (fst (handle_cooking_internal DISHES now1 now2 hour user_id s))
        = last_response_cache s
      \<and> (\<forall>c. snd (handle_cooking_internal DISHES now1 now2 hour user_id
                     (s\<lparr>last_response_cache := c\<rparr>))
             = snd (handle_cooking_internal DISHES now1 now2 hour user_id s)))"
proof (intro conjI impI allI)
  assume a: "user_id \<in> paid_users s
      \<and> last_response_cache s user_id
          = Some (CACHE_MARK @ cache_key hour0 hl0 dt0 @ ascii ''||'' @ reply0, t0)
      \<and> diet_map d0 = Some dt0"
  then have d0: "diet_map d0 = Some dt0"
    by simp
  have m: "startswith (CACHE_MARK @ cache_key hour0 hl0 dt0 @ ascii ''||'' @ reply0)
        (CACHE_MARK @ cache_key hour hl dt) \<longleftrightarrow> hour0 = hour \<and> hl0 = hl \<and> dt0 = dt"
    by (rule cache_key_match [OF assms(4) d0])
  from a have paid: "user_id \<in> paid_users s"
    and c: "last_response_cache s user_id
        = Some (CACHE_MARK @ cache_key hour0 hl0 dt0 @ ascii ''||'' @ reply0, t0)"
    by simp_all
  note eq = hci_entitled [OF assms(1) paid assms(2,3), of DISHES now2 hour]
  show "handle_cooking_internal DISHES now1 now2 hour user_id s =
      (if hour0 = hour \<and> hl0 = hl \<and> dt0 = dt \<and> now2 - t0 < timedelta_minutes 5
       then (s\<lparr>last_request_time := (last_request_time s)(user_id \<mapsto> now1)\<rparr>,
             [Answer reply0 None])
       else (s\<lparr>last_request_time := (last_request_time s)(user_id \<mapsto> now1),
                last_response_cache := (last_response_cache s)
                  (user_id \<mapsto> (CACHE_MARK @ cache_key hour hl dt @ ascii ''||''
                                   @ new_reply DISHES hour hl dt, now2))\<rparr>,
             [Answer (new_reply DISHES hour hl dt) None]))"
    unfolding eq c
    by (simp add: m cache_entry_strip del: startswith_append_same)
next
  assume "user_id \<in> paid_users s \<and> last_response_cache s user_id = None"
  with assms(1-3) show "handle_cooking_internal DISHES now1 now2 hour user_id s =
      (s\<lparr>last_request_time := (last_request_time s)(user_id \<mapsto> now1),
         last_response_cache := (last_response_cache s)
           (user_id \<mapsto> (CACHE_MARK @ cache_key hour hl dt @ ascii ''||''
                            @ new_reply DISHES hour hl dt, now2))\<rparr>,
       [Answer (new_reply DISHES hour hl dt) None])"
    by (simp add: hci_entitled)
next
  assume "user_id \<notin> paid_users s"
  then show "last_response_cache (fst (handle_cooking_internal DISHES now1 now2 hour user_id s))
      = last_response_cache s"
    by (rule hci_cache_not_entitled(1))
next
  fix c
  assume "user_id \<notin> paid_users s"
  then show "snd (handle_cooking_internal DISHES now1 now2 hour user_id
                   (s\<lparr>last_response_cache := c\<rparr>))
      = snd (handle_cooking_internal DISHES now1 now2 hour user_id s)"
    by (rule hci_cache_not_entitled(2))
qed

text \<open>
  On \<open>cached_state\<close>, whose entry is from time 0: a hit 4 minutes 59 seconds later for
  the same key, a miss 5 minutes 1 second later, a miss for hour 9 in the same slot.
  With the entry removed, the request stores one; with the user not entitled, the
  cache stays as it is.
\<close>

theorem cache_lookup_and_store_witness:
  "\<not> fst (is_rate_limited 299000000 1 cached_state)
   \<and> data_healthy (fsm cached_state 1) = Some False
   \<and> data_diet (fsm cached_state 1) = Some (ascii ''meat'')
   \<and> diet_map (ascii ''diet_meat'') = Some (ascii ''meat'')
   \<and> 1 \<in> paid_users cached_state
   \<and> last_response_cache cached_state 1
       = Some (CACHE_MARK @ cache_key 8 False (ascii ''meat'') @ ascii ''||'' @ ascii ''bacon'', 0)
   \<and> handle_cooking_internal example_dishes 299000000 299000000 8 1 cached_state
       = (cached_state\<lparr>last_request_time := (last_request_time cached_state)(1 \<mapsto> 299000000)\<rparr>,
          [Answer (ascii ''bacon'') None])
   \<and> snd (handle_cooking_internal example_dishes 301000000 301000000 8 1 cached_state)
       = [Answer (new_reply example_dishes 8 False (ascii ''meat'')) None]
   \<and> snd (handle_cooking_internal example_dishes 299000000 299000000 9 1 cached_state)
       = [Answer (new_reply example_dishes 9 False (ascii ''meat'')) None]
   \<and> last_response_cache (cached_state\<lparr>last_response_cache := Map.empty\<rparr>) 1 = None
   \<and> last_response_cache
        (fst (handle_cooking_internal example_dishes 7 9 8 1
               (cached_state\<lparr>last_response_cache := Map.empty\<rparr>))) 1
       = Some (CACHE_MARK @ cache_key 8 False (ascii ''meat'') @ ascii ''||''
                 @ new_reply example_dishes 8 False (ascii ''meat''), 9)
   \<and> 1 \<notin> paid_users (cached_state\<lparr>paid_users := {}\<rparr>)
   \<and> last_response_cache
        (fst (handle_cooking_internal example_dishes 299000000 299000000 8 1
               (cached_state\<lparr>paid_users := {}\<rparr>)))
       = last_response_cache cached_state"
proof -
  have h: "\<not> fst (is_rate_limited 299000000 1 cached_state)"
    "\<not> fst (is_rate_limited 301000000 1 cached_state)"
    "data_healthy (fsm cached_state 1) = Some False"
    "data_diet (fsm cached_state 1) = Some (ascii ''meat'')"
    "1 \<in> paid_users cached_state"
    "last_response_cache cached_state 1
       = Some (CACHE_MARK @ cache_key 8 False (ascii ''meat'') @ ascii ''||'' @ ascii ''bacon'', 0)"
    by (simp_all add: cached_state_def init_state_def is_rate_limited_def)
  have m: "diet_map (ascii ''diet_meat'') = Some (ascii ''meat'')"
    by (simp add: diet_map_def ascii_def)
  have t: "(299000000::int) - 0 < timedelta_minutes 5" "\<not> (301000000::int) - 0 < timedelta_minutes 5"
    by (simp_all add: timedelta_minutes_def)
  from cache_lookup_and_store [OF h(1) h(3) h(4) m, of 8 False "ascii ''meat''" "ascii ''bacon''" 0
      "ascii ''diet_meat''" example_dishes 299000000 8] h(5,6) m t(1)
  have a: "handle_cooking_internal example_dishes 299000000 299000000 8 1 cached_state
       = (cached_state\<lparr>last_request_time := (last_request_time cached_state)(1 \<mapsto> 299000000)\<rparr>,
          [Answer (ascii ''bacon'') None])"
    by simp
  from cache_lookup_and_store [OF h(2) h(3) h(4) m, of 8 False "ascii ''meat''" "ascii ''bacon''" 0
      "ascii ''diet_meat''" example_dishes 301000000 8] h(5,6) m t(2)
  have b: "snd (handle_cooking_internal example_dishes 301000000 301000000 8 1 cached_state)
       = [Answer (new_reply example_dishes 8 False (ascii ''meat'')) None]"
    by simp
  from cache_lookup_and_store [OF h(1) h(3) h(4) m, of 8 False "ascii ''meat''" "ascii ''bacon''" 0
      "ascii ''diet_meat''" example_dishes 299000000 9] h(5,6) m
  have c: "snd (handle_cooking_internal example_dishes 299000000 299000000 9 1 cached_state)
       = [Answer (new_reply example_dishes 9 False (ascii ''meat'')) None]"
    by simp
  let ?e = "cached_state\<lparr>last_response_cache := Map.empty\<rparr>"
  have he: "\<not> fst (is_rate_limited 7 1 ?e)" "data_healthy (fsm ?e 1) = Some False"
    "data_diet (fsm ?e 1) = Some (ascii ''meat'')" "1 \<in> paid_users ?e"
    "last_response_cache ?e 1 = None"
    by (simp_all add: cached_state_def init_state_def is_rate_limited_def)
  from cache_lookup_and_store [OF he(1-3) m, of _ _ _ _ _ _ example_dishes 9 8] he(4,5)
  have "handle_cooking_internal example_dishes 7 9 8 1 ?e =
      (?e\<lparr>last_request_time := (last_request_time ?e)(1 \<mapsto> 7),
          last_response_cache := (last_response_cache ?e)
            (1 \<mapsto> (CACHE_MARK @ cache_key 8 False (ascii ''meat'') @ ascii ''||''
                        @ new_reply example_dishes 8 False (ascii ''meat''), 9))\<rparr>,
       [Answer (new_reply example_dishes 8 False (ascii ''meat'')) None])"
    by blast
  then have e: "last_response_cache (fst (handle_cooking_internal example_dishes 7 9 8 1 ?e)) 1
      = Some (CACHE_MARK @ cache_key 8 False (ascii ''meat'') @ ascii ''||''
                @ new_reply example_dishes 8 False (ascii ''meat''), 9)"
    by simp
  let ?u = "cached_state\<lparr>paid_users := {}\<rparr>"
  have hu: "\<not> fst (is_rate_limited 299000000 1 ?u)" "data_healthy (fsm ?u 1) = Some False"
    "data_diet (fsm ?u 1) = Some (ascii ''meat'')" "1 \<notin> paid_users ?u"
    by (simp_all add: cached_state_def init_state_def is_rate_limited_def)
  from cache_lookup_and_store [OF hu(1-3) m, of _ _ _ _ _ _ example_dishes 299000000 8] hu(4)
  have "last_response_cache (fst (handle_cooking_internal example_dishes 299000000 299000000 8 1 ?u))
      = last_response_cache ?u"
    by blast
  then have u: "last_response_cache
      (fst (handle_cooking_internal example_dishes 299000000 299000000 8 1 ?u))
      = last_response_cache cached_state"
    by simp
  from h m a b c he(5) e hu(4) u show ?thesis by blast
qed

section \<open>The free request is never answered\<close>

lemma button_prefixes:
  "startswith (ascii ''suggest_breakfast'') (ascii ''suggest_'')"
  "time_map (ascii ''suggest_breakfast'') = Some 8"
  "\<not> startswith (ascii ''healthy_no'') (ascii ''suggest_'')"
  "startswith (ascii ''healthy_no'') (ascii ''healthy_'')"
  "ascii ''healthy_no'' \<noteq> ascii ''healthy_yes''"
  "\<not> startswith (ascii ''diet_meat'') (ascii ''suggest_'')"
  "startswith (ascii ''diet_meat'') (ascii ''diet_'')"
  "diet_map (ascii ''diet_meat'') = Some (ascii ''meat'')"
  by (simp_all add: startswith_def time_map_def diet_map_def ascii_def)

text \<open>
  C2 says that a new user who asks for breakfast (hour 8), answers the health question
  with no and the diet question with meat, then gets up to three breakfast dishes with
  the upsell suffix. The code does not do that. From the empty storage, for any user,
  catalog and clock readings: the suggestion is answered with the health question,
  the health answer with the diet question, and the diet answer replays the request
  through the rate limit and the quota check once more. The free attempt was counted
  when the health question was asked, so the replay is answered with the wait notice
  (less than a minute after the request) or with the upsell prompt, never with dishes;
  the session is cleared, the free attempt is spent and the user is not entitled.
\<close>

theorem free_request_replay_refused:
  "dispatch U DISHES clk1 (CallbackQuery user_id (ascii ''suggest_breakfast'')) init_state
     = Inr (after U DISHES clk1 (CallbackQuery user_id (ascii ''suggest_breakfast'')) init_state,
            [Answer MSG_ASK_HEALTH (Some build_health_kb), CallbackAnswer None False])
   \<and> dispatch U DISHES clk2 (CallbackQuery user_id (ascii ''healthy_no''))
       (after U DISHES clk1 (CallbackQuery user_id (ascii ''suggest_breakfast'')) init_state)
     = Inr (after U DISHES clk2 (CallbackQuery user_id (ascii ''healthy_no''))
              (after U DISHES clk1 (CallbackQuery user_id (ascii ''suggest_breakfast'')) init_state),
            [EditText MSG_ASK_DIET (Some build_diet_kb), CallbackAnswer None False])
   \<and> (case dispatch U DISHES clk3 (CallbackQuery user_id (ascii ''diet_meat''))
             (after U DISHES clk2 (CallbackQuery user_id (ascii ''healthy_no''))
                (after U DISHES clk1 (CallbackQuery user_id (ascii ''suggest_breakfast''))
                   init_state)) of
         Inl e \<Rightarrow> False
       | Inr (s3, out) \<Rightarrow>
           out = [if now_rate clk3 - now_rate clk1 < timedelta_minutes 1
                  then Answer MSG_WAIT None
                  else Answer MSG_UPSELL (Some build_payment_kb),
                  CallbackAnswer None False]
           \<and> fsm s3 user_id = fsm_clear
           \<and> free_attempts s3 user_id = Some 1
           \<and> user_id \<notin> paid_users s3)"
proof -
  let ?e1 = "CallbackQuery user_id (ascii ''suggest_breakfast'')"
  let ?e2 = "CallbackQuery user_id (ascii ''healthy_no'')"
  let ?e3 = "CallbackQuery user_id (ascii ''diet_meat'')"
  let ?s1 = "init_state\<lparr>free_attempts := [user_id \<mapsto> 1],
      last_request_time := [user_id \<mapsto> now_rate clk1],
      fsm := (\<lambda>_. fsm_clear)(user_id :=
        fsm_clear\<lparr>fsm_state := Some asking_health, data_pending_hour := Some 8\<rparr>)\<rparr>"
  let ?s2 = "?s1\<lparr>fsm := (fsm ?s1)(user_id :=
      (fsm ?s1 user_id)\<lparr>data_healthy := Some False, fsm_state := Some asking_diet\<rparr>)\<rparr>"
  have d1: "dispatch U DISHES clk1 ?e1 init_state
      = Inr (?s1, [Answer MSG_ASK_HEALTH (Some build_health_kb), CallbackAnswer None False])"
    by (simp add: dispatch_def handle_time_suggestion_def button_prefixes hci_first_request)
  then have a1: "after U DISHES clk1 ?e1 init_state = ?s1"
    by (simp add: after_def)
  have d2: "dispatch U DISHES clk2 ?e2 ?s1
      = Inr (?s2, [EditText MSG_ASK_DIET (Some build_diet_kb), CallbackAnswer None False])"
    by (simp add: dispatch_def process_health_def button_prefixes fsm_clear_def)
  then have a2: "after U DISHES clk2 ?e2 ?s1 = ?s2"
    by (simp add: after_def)
  let ?s2' = "?s2\<lparr>fsm := (fsm ?s2)(user_id := (fsm ?s2 user_id)\<lparr>data_diet := Some (ascii ''meat'')\<rparr>)\<rparr>"
  let ?r = "handle_cooking_internal DISHES (now_rate clk3) (now_cache clk3)
      (case data_pending_hour (fsm ?s2 user_id) of Some h \<Rightarrow> h | None \<Rightarrow> now_hour clk3)
      user_id ?s2'"
  have st: "fsm_state (fsm ?s2 user_id) = Some asking_diet"
    by simp
  have d3: "dispatch U DISHES clk3 ?e3 ?s2
      = Inr ((fst ?r)\<lparr>fsm := (fsm (fst ?r))(user_id := fsm_clear)\<rparr>,
             snd ?r @ [CallbackAnswer None False])"
    by (rule after_diet(1) [OF button_prefixes(6) st button_prefixes(7,8) refl])
  have unpaid: "user_id \<notin> paid_users ?s2'"
    and used: "1 \<le> dict_get (free_attempts ?s2') user_id 0"
    and lim: "fst (is_rate_limited (now_rate clk3) user_id ?s2')
        \<longleftrightarrow> now_rate clk3 - now_rate clk1 < timedelta_minutes 1"
    by (simp_all add: init_state_def dict_get_def is_rate_limited_iff)
  have out: "snd ?r = [if now_rate clk3 - now_rate clk1 < timedelta_minutes 1
      then Answer MSG_WAIT None else Answer MSG_UPSELL (Some build_payment_kb)]"
    and fr: "free_attempts (fst ?r) user_id = Some 1"
    and pd: "user_id \<notin> paid_users (fst ?r)"
    using unpaid used lim
    by (simp_all add: hci_free_attempts hci_paid_users hci_limited hci_must_pay)
  show ?thesis
    unfolding a1 d1 a2 d2 d3 using out fr pd by simp
qed

text \<open>
  One call of \<open>handle_cooking_internal\<close> writes the session of its own user only, and
  only to open it, which for a user who has not paid comes with the increment.
\<close>

lemma hci_fsm:
  "fsm (fst (handle_cooking_internal DISHES now1 now2 hour user_id s)) = fsm s
   \<or> (fsm (fst (handle_cooking_internal DISHES now1 now2 hour user_id s))
         = (fsm s)(user_id := (fsm s user_id)
             \<lparr>fsm_state := Some asking_health, data_pending_hour := Some hour\<rparr>)
       \<and> (user_id \<in> paid_users s
           \<or> free_attempts (fst (handle_cooking_internal DISHES now1 now2 hour user_id s)) user_id
               = Some (dict_get (free_attempts s) user_id 0 + 1)))"
proof (cases "fst (is_rate_limited now1 user_id s)")
  case True
  then show ?thesis by (simp add: hci_limited)
next
  case False
  then show ?thesis
    by (simp add: handle_cooking_internal_def is_rate_limited_False Let_def
        split: option.splits prod.splits)
qed

lemma hci_other_user:
  assumes "u \<noteq> user_id"
  shows "fsm (fst (handle_cooking_internal DISHES now1 now2 hour user_id s)) u = fsm s u"
    and "free_attempts (fst (handle_cooking_internal DISHES now1 now2 hour user_id s)) u
           = free_attempts s u"
  using assms hci_fsm [of DISHES now1 now2 hour user_id s]
  by (auto simp: hci_free_attempts)

text \<open>
  In every reachable storage, a user who has not paid and whose session is open or
  holds data has used the free attempt.
\<close>

lemma reachable_session_used:
  "reachable U DISHES s \<Longrightarrow> u \<notin> paid_users s \<Longrightarrow> fsm s u \<noteq> fsm_clear \<Longrightarrow>
   free_attempts s u = Some 1"
proof (induction arbitrary: u rule: reachable.induct)
  case start
  then show ?case by (simp add: init_state_def)
next
  case (update s clk ev)
  let ?s' = "after U DISHES clk ev s"
  have r': "reachable U DISHES ?s'"
    using update.hyps by (rule reachable.update)
  show ?case
  proof (cases U DISHES clk ev s rule: after_cases)
    case same
    with update show ?thesis by simp
  next
    case (cook user_id h)
    show ?thesis
    proof (cases "fsm ?s' u = fsm s u")
      case True
      with update.prems cook have "free_attempts s u = Some 1"
        by (intro update.IH) (simp_all add: hci_paid_users)
      with cook show ?thesis
        by (auto simp: hci_free_attempts dict_get_def)
    next
      case False
      with cook hci_fsm [of DISHES "now_rate clk" "now_cache clk" h user_id s]
      have "u = user_id"
        and "user_id \<in> paid_users s \<or> free_attempts ?s' user_id
              = Some (dict_get (free_attempts s) user_id 0 + 1)"
        by (auto split: if_splits)
      with update.prems cook have "free_attempts ?s' u \<noteq> None"
        by (auto simp: hci_paid_users)
      with reachable_free_attempts [OF r', of u] show ?thesis by simp
    qed
  next
    case (health user_id d)
    from health(2) have eq: "paid_users ?s' = paid_users s" "free_attempts ?s' = free_attempts s"
      and other: "u \<noteq> user_id \<Longrightarrow> fsm ?s' u = fsm s u"
      by (simp_all add: process_health_def)
    have "fsm s u \<noteq> fsm_clear"
    proof (cases "u = user_id")
      case True
      with health(1) show ?thesis by (auto simp: fsm_clear_def)
    next
      case False
      with other update.prems show ?thesis by simp
    qed
    with update.prems eq show ?thesis
      by (simp add: update.IH)
  next
    case (replay user_id d dt r)
    let ?s1 = "s\<lparr>fsm := (fsm s)(user_id := (fsm s user_id)\<lparr>data_diet := Some dt\<rparr>)\<rparr>"
    from replay(4) update.prems have ne: "u \<noteq> user_id"
      by auto
    with replay(3,4) have "fsm ?s' u = fsm s u" "free_attempts ?s' u = free_attempts s u"
      by (simp_all add: hci_other_user)
    moreover from replay(3,4) have "paid_users ?s' = paid_users s"
      by (simp add: hci_paid_users)
    ultimately show ?thesis
      using update.prems by (simp add: update.IH)
  next
    case (buy user_id)
    then have "paid_users ?s' = insert user_id (paid_users s) \<or> ?s' = s"
      and "fsm ?s' = fsm s"
      and "u \<noteq> user_id \<Longrightarrow> free_attempts ?s' u = free_attempts s u"
      by (simp_all add: buy_access_def)
    with update.prems show ?thesis
      by (cases "u = user_id") (auto simp: update.IH buy buy_access_def split: if_splits)
  qed
qed

text \<open>
  So no call of \<open>handle_cooking_internal\<close> that a reachable storage allows ever
  renders dishes for a user who has not paid: a request gets the wait notice, the
  upsell prompt or the health question, and the replay after the diet answer gets the
  wait notice or the upsell prompt. The branch of line 180 is never taken.
\<close>

lemma non_entitled_request:
  assumes "reachable U DISHES s" and "user_id \<notin> paid_users s"
  shows "snd (handle_cooking_internal DISHES now1 now2 hour user_id s)
         \<in> {[Answer MSG_WAIT None], [Answer MSG_UPSELL (Some build_payment_kb)],
            [Answer MSG_ASK_HEALTH (Some build_health_kb)]}"
proof (cases "fst (is_rate_limited now1 user_id s)")
  case True
  then show ?thesis by (simp add: hci_limited)
next
  case allowed: False
  show ?thesis
  proof (cases "1 \<le> dict_get (free_attempts s) user_id 0")
    case True
    with allowed assms(2) show ?thesis by (simp add: hci_must_pay)
  next
    case False
    then have "free_attempts s user_id \<noteq> Some 1"
      by (auto simp: dict_get_def)
    with assms have "fsm s user_id = fsm_clear"
      using reachable_session_used by blast
    with allowed assms(2) False show ?thesis
      by (simp add: handle_cooking_internal_def is_rate_limited_False fsm_clear_def)
  qed
qed

lemma non_entitled_replay:
  assumes "reachable U DISHES s" and "user_id \<notin> paid_users s"
    and "fsm_state (fsm s user_id) = Some asking_diet"
  shows "snd (handle_cooking_internal DISHES now1 now2 hour user_id
                (s\<lparr>fsm := (fsm s)(user_id := (fsm s user_id)\<lparr>data_diet := Some dt\<rparr>)\<rparr>))
         \<in> {[Answer MSG_WAIT None], [Answer MSG_UPSELL (Some build_payment_kb)]}"
proof -
  let ?s1 = "s\<lparr>fsm := (fsm s)(user_id := (fsm s user_id)\<lparr>data_diet := Some dt\<rparr>)\<rparr>"
  from assms(3) have "fsm s user_id \<noteq> fsm_clear"
    by (auto simp: fsm_clear_def)
  with assms(1,2) have "free_attempts s user_id = Some 1"
    by (rule reachable_session_used)
  then have used: "1 \<le> dict_get (free_attempts ?s1) user_id 0"
    by (simp add: dict_get_def)
  from assms(2) have unpaid: "user_id \<notin> paid_users ?s1"
    by simp
  show ?thesis
  proof (cases "fst (is_rate_limited now1 user_id ?s1)")
    case True
    then show ?thesis by (simp add: hci_limited)
  next
    case False
    with unpaid used show ?thesis by (simp add: hci_must_pay)
  qed
qed

section \<open>The cache in reachable storages\<close>

text \<open>
  The hypotheses of the cache theorem hold wherever the bot can be: in every reachable
  storage each diet in a session is one that \<open>diet_map\<close> stores, and each cache entry
  is one that line 182 wrote for such a diet.
\<close>

lemma hci_cache:
  "last_response_cache (fst (handle_cooking_internal DISHES now1 now2 hour user_id s))
     = last_response_cache s
   \<or> (\<exists>hl dt. data_diet (fsm s user_id) = Some dt
        \<and> last_response_cache (fst (handle_cooking_internal DISHES now1 now2 hour user_id s))
            = (last_response_cache s)
                (user_id \<mapsto> (CACHE_MARK @ cache_key hour hl dt @ ascii ''||''
                                 @ new_reply DISHES hour hl dt, now2)))"
proof (cases "user_id \<in> paid_users s")
  case False
  then show ?thesis by (simp add: hci_cache_not_entitled(1))
next
  case paid: True
  show ?thesis
  proof (cases "fst (is_rate_limited now1 user_id s)")
    case True
    then show ?thesis by (simp add: hci_limited)
  next
    case allowed: False
    show ?thesis
    proof (cases "\<exists>hl dt. data_healthy (fsm s user_id) = Some hl \<and> data_diet (fsm s user_id) = Some dt")
      case True
      then obtain hl dt where p: "data_healthy (fsm s user_id) = Some hl"
          "data_diet (fsm s user_id) = Some dt"
        by blast
      show ?thesis
        unfolding hci_entitled [OF allowed paid p, of DISHES now2 hour]
        using p(2) by (auto split: option.splits)
    next
      case False
      with allowed paid show ?thesis
        by (auto simp: handle_cooking_internal_def is_rate_limited_False Let_def
            split: option.splits)
    qed
  qed
qed

lemma hci_data_diet:
  "data_diet (fsm (fst (handle_cooking_internal DISHES now1 now2 hour user_id s)) u)
     = data_diet (fsm s u)"
  using hci_fsm [of DISHES now1 now2 hour user_id s] by auto

lemma reachable_formats:
  "reachable U DISHES s \<Longrightarrow>
   (\<forall>u dt. data_diet (fsm s u) = Some dt \<longrightarrow> (\<exists>d. diet_map d = Some dt))
   \<and> (\<forall>u e t. last_response_cache s u = Some (e, t) \<longrightarrow>
         (\<exists>h hl dt d r. e = CACHE_MARK @ cache_key h hl dt @ ascii ''||'' @ r
            \<and> diet_map d = Some dt))"
proof (induction rule: reachable.induct)
  case start
  show ?case by (simp add: init_state_def fsm_clear_def)
next
  case (update s clk ev)
  let ?s' = "after U DISHES clk ev s"
  let ?D = "\<lambda>s. \<forall>u dt. data_diet (fsm s u) = Some dt \<longrightarrow> (\<exists>d. diet_map d = Some dt)"
  let ?C = "\<lambda>s. \<forall>u e t. last_response_cache s u = Some (e, t) \<longrightarrow>
         (\<exists>h hl dt d r. e = CACHE_MARK @ cache_key h hl dt @ ascii ''||'' @ r
            \<and> diet_map d = Some dt)"
  from update.IH have D: "?D s" and C: "?C s" by blast+
  have step: "?D (fst (handle_cooking_internal DISHES n1 n2 h user_id s0))
      \<and> ?C (fst (handle_cooking_internal DISHES n1 n2 h user_id s0))"
    if "?D s0" and "?C s0" for n1 n2 h user_id s0
  proof
    from that(1) show "?D (fst (handle_cooking_internal DISHES n1 n2 h user_id s0))"
      by (simp add: hci_data_diet)
    from hci_cache [of DISHES n1 n2 h user_id s0]
    show "?C (fst (handle_cooking_internal DISHES n1 n2 h user_id s0))"
    proof
      assume "last_response_cache (fst (handle_cooking_internal DISHES n1 n2 h user_id s0))
          = last_response_cache s0"
      with that(2) show ?thesis by simp
    next
      assume "\<exists>hl dt. data_diet (fsm s0 user_id) = Some dt
          \<and> last_response_cache (fst (handle_cooking_internal DISHES n1 n2 h user_id s0))
              = (last_response_cache s0)
                  (user_id \<mapsto> (CACHE_MARK @ cache_key h hl dt @ ascii ''||''
                                   @ new_reply DISHES h hl dt, n2))"
      then obtain hl dt where dt: "data_diet (fsm s0 user_id) = Some dt"
        and c: "last_response_cache (fst (handle_cooking_internal DISHES n1 n2 h user_id s0))
              = (last_response_cache s0)
                  (user_id \<mapsto> (CACHE_MARK @ cache_key h hl dt @ ascii ''||''
                                   @ new_reply DISHES h hl dt, n2))"
        by blast
      from that(1) dt obtain d where "diet_map d = Some dt" by blast
      with that(2) show ?thesis
        unfolding c by (auto split: if_splits)
    qed
  qed
  show ?case
  proof (cases U DISHES clk ev s rule: after_cases)
    case same
    with update.IH show ?thesis by simp
  next
    case (cook user_id h)
    with step [OF D C] show ?thesis by simp
  next
    case (health user_id d)
    with D C show ?thesis
      by (simp add: process_health_def)
  next
    case (replay user_id d dt r)
    let ?s1 = "s\<lparr>fsm := (fsm s)(user_id := (fsm s user_id)\<lparr>data_diet := Some dt\<rparr>)\<rparr>"
    from D replay(2) have "?D ?s1" by auto
    moreover from C have "?C ?s1" by simp
    ultimately have "?D (fst r) \<and> ?C (fst r)"
      unfolding replay(3) by (rule step)
    then show ?thesis
      unfolding replay(4) by (simp add: fsm_clear_def)
  next
    case (buy user_id)
    with D C show ?thesis
      by (simp add: buy_access_def)
  qed
qed

end
